theory Spec2Isabelle
  imports Main "HOL-Library.Word" "HOL-Library.AList"
begin

section \<open>Data model\<close>

text \<open>
  The probes of \<^verbatim>\<open>ebpf.c\<close> and \<^verbatim>\<open>usdt.c\<close> aggregate into one BPF hash table each.
  The value is the same struct in both files; the key of \<^verbatim>\<open>ebpf.c\<close> carries a
  fourth field \<^verbatim>\<open>sysid\<close> that the key of \<^verbatim>\<open>usdt.c\<close> does not have.
  The machine integers are words: \<^verbatim>\<open>u32\<close> and \<^verbatim>\<open>u64\<close> arithmetic wraps around.
  A \<^verbatim>\<open>char[64]\<close> field is the list of its 64 bytes.
\<close>

type_synonym u32 = "32 word"
type_synonym u64 = "64 word"

record value_t =
  counter :: u32
  startTime :: u64
  cumLat :: u64

text \<open>\<^verbatim>\<open>struct key_t\<close> of \<^verbatim>\<open>ebpf.c\<close>.\<close>

record key_t =
  fname :: string
  comm :: string
  pid :: u32
  sysid :: u32

text \<open>\<^verbatim>\<open>struct key_t\<close> of \<^verbatim>\<open>usdt.c\<close> (the field names carry a prefix, since the
  two structs live in one theory here).\<close>

record usdt_key_t =
  usdt_fname :: string
  usdt_comm :: string
  usdt_pid :: u32

type_synonym 'k table = "('k \<times> value_t) list"

section \<open>Byte buffers and the string helpers the probes call\<close>

definition NUL :: char where
  "NUL = CHR 0x00"

text \<open>A zero-initialised buffer (\<^verbatim>\<open>struct key_t key = {}\<close>) of \<open>n\<close> bytes.\<close>

definition zero_buf :: "nat \<Rightarrow> string" where
  "zero_buf n = replicate n NUL"

text \<open>A \<^verbatim>\<open>char[n]\<close> initialised from a string literal: the literal, then zeros.\<close>

definition buf_of :: "nat \<Rightarrow> string \<Rightarrow> string" where
  "buf_of n s = s @ replicate (n - length s) NUL"

text \<open>The C string that starts a byte sequence: the bytes before the first NUL.\<close>

definition c_str :: "string \<Rightarrow> string" where
  "c_str bs = takeWhile (\<lambda>c. c \<noteq> NUL) bs"

datatype error = BufferOverflow

text \<open>
  \<^verbatim>\<open>strcpy(dst, src)\<close> copies the string and its terminator and knows no bound. It is
  defined by the C standard only when the destination holds \<open>strlen src + 1\<close> bytes;
  writing past the array is reported as \<^const>\<open>BufferOverflow\<close>.
\<close>

definition strcpy :: "string \<Rightarrow> string \<Rightarrow> error + string" where
  "strcpy dst src =
     (let s = c_str src in
      if length s < length dst then Inr (s @ NUL # drop (Suc (length s)) dst)
      else Inl BufferOverflow)"

text \<open>
  What a user-space address holds: nothing readable, or bytes. The kernel helper
  \<^verbatim>\<open>bpf_probe_read_str(dst, size, addr)\<close> copies at most \<open>size - 1\<close> bytes of the string
  and terminates it, returning the length written (terminator included); when the read
  faults it returns the negative error code \<open>-EFAULT\<close> and zeroes the destination.
\<close>

datatype user_mem = Fault | Bytes string

definition EFAULT :: int where
  "EFAULT = 14"

definition bpf_probe_read_str :: "string \<Rightarrow> nat \<Rightarrow> user_mem \<Rightarrow> int \<times> string" where
  "bpf_probe_read_str dst sz m =
     (case m of
        Fault \<Rightarrow> (- EFAULT, replicate sz NUL @ drop sz dst)
      | Bytes bs \<Rightarrow>
          (let s = take (sz - 1) (c_str bs) in
           (int (length s) + 1, s @ NUL # drop (Suc (length s)) dst)))"

text \<open>
  \<^verbatim>\<open>bpf_get_current_comm(buf, size)\<close> fills the whole buffer with the task's name,
  cut to \<open>size - 1\<close> bytes and padded with zeros.
\<close>

definition bpf_get_current_comm :: "nat \<Rightarrow> string \<Rightarrow> string" where
  "bpf_get_current_comm sz task_comm =
     (let s = take (sz - 1) (c_str task_comm) in s @ replicate (sz - length s) NUL)"

section \<open>The hash table\<close>

text \<open>
  Modelled from the spec: the table that \<^verbatim>\<open>BPF_HASH\<close> declares and its operations
  \<^verbatim>\<open>map.lookup\<close>, \<^verbatim>\<open>map.update\<close>, \<^verbatim>\<open>map.lookup_or_init\<close> and
  \<^verbatim>\<open>map.lookup_or_try_init\<close> belong to the BPF runtime, not to the two source files.
  They follow section 4.2 of the specification: a map of fixed capacity that never
  evicts. The table is an association list with one pair per key; a new key goes to the
  end, and the table is full when it holds as many pairs as its capacity.
\<close>

definition map_lookup :: "'k table \<Rightarrow> 'k \<Rightarrow> value_t option" where
  "map_lookup t k = map_of t k"

text \<open>
  Modelled from the spec: \<^verbatim>\<open>map.update(&key, &val)\<close> replaces the stored value of a
  key; a key that is not in the table is inserted when there is room, and the call does
  nothing otherwise.
\<close>

definition map_update :: "nat \<Rightarrow> 'k table \<Rightarrow> 'k \<Rightarrow> value_t \<Rightarrow> 'k table" where
  "map_update cap t k v =
     (if map_of t k = None then (if length t < cap then t @ [(k, v)] else t)
      else AList.update k v t)"

text \<open>
  Modelled from the spec: the insertion of a key that must not exist yet, which is the
  first half of lookup-or-initialize. Without room it does nothing.
\<close>

definition map_insert :: "nat \<Rightarrow> 'k table \<Rightarrow> 'k \<Rightarrow> value_t \<Rightarrow> 'k table" where
  "map_insert cap t k v =
     (if map_of t k = None then (if length t < cap then t @ [(k, v)] else t) else t)"

text \<open>
  Modelled from the spec: \<^verbatim>\<open>map.lookup_or_try_init(&key, &zleaf)\<close> returns the value of
  the key when it has one; otherwise it inserts \<open>zleaf\<close> when there is room and returns
  it, and returns nothing (a null pointer) when the table is full.
\<close>

definition map_lookup_or_try_init ::
    "nat \<Rightarrow> 'k table \<Rightarrow> 'k \<Rightarrow> value_t \<Rightarrow> 'k table \<times> value_t option" where
  "map_lookup_or_try_init cap t k zleaf =
     (case map_lookup t k of
        Some v \<Rightarrow> (t, Some v)
      | None \<Rightarrow> (let t' = map_insert cap t k zleaf in (t', map_lookup t' k)))"

text \<open>
  Modelled from the spec: \<^verbatim>\<open>map.lookup_or_init\<close> is the older spelling of the same
  operation. When the value is still missing after the insertion its expansion returns 0
  from the calling probe by itself, which is why \<^verbatim>\<open>sys_enter\<close> can do without the
  null test that \<^verbatim>\<open>do_enter\<close> spells out: in both, an absent result ends the probe.
\<close>

definition map_lookup_or_init ::
    "nat \<Rightarrow> 'k table \<Rightarrow> 'k \<Rightarrow> value_t \<Rightarrow> 'k table \<times> value_t option" where
  "map_lookup_or_init cap t k zleaf = map_lookup_or_try_init cap t k zleaf"

text \<open>
  The lookups return a pointer into the table: an assignment through \<^verbatim>\<open>pValue\<close>
  changes the stored value at once, before \<^verbatim>\<open>map.update\<close> is called.
\<close>

definition poke :: "'k table \<Rightarrow> 'k \<Rightarrow> value_t \<Rightarrow> 'k table" where
  "poke t k v = AList.update k v t"

text \<open>\<^verbatim>\<open>BPF_HASH(map, struct key_t, struct value_t, 1024*32)\<close> and
  \<^verbatim>\<open>BPF_HASH(map, struct key_t, struct value_t, 1024)\<close>.\<close>

definition ebpf_map_size :: nat where
  "ebpf_map_size = 1024 * 32"

definition usdt_map_size :: nat where
  "usdt_map_size = 1024"

section \<open>The probes of ebpf.c\<close>

text \<open>
  Every probe takes the table, what it reads from its context (the traced name or
  syscall id, the task's name, the value of \<^verbatim>\<open>bpf_get_current_pid_tgid()\<close>) and the
  value of \<^verbatim>\<open>bpf_ktime_get_ns()\<close>, and returns the table it leaves behind.
\<close>

definition do_enter :: "key_t table \<Rightarrow> string \<Rightarrow> string \<Rightarrow> u64 \<Rightarrow> u64 \<Rightarrow> error + key_t table" where
  "do_enter t fname_arg task_comm pid_tgid stime =
     (case strcpy (zero_buf 64) fname_arg of
        Inl e \<Rightarrow> Inl e
      | Inr f \<Rightarrow>
          (let key = \<lparr>fname = f, comm = bpf_get_current_comm 64 task_comm,
                       pid = ucast pid_tgid, sysid = 0\<rparr>;
               valZero = \<lparr>counter = 0, startTime = 0, cumLat = 0\<rparr>
           in case map_lookup_or_init ebpf_map_size t key valZero of
                (t1, None) \<Rightarrow> Inr t1
              | (t1, Some v) \<Rightarrow>
                  (let v1 = v\<lparr>counter := counter v + 1\<rparr>;
                       t2 = poke t1 key v1;
                       v2 = v1\<lparr>startTime := stime\<rparr>;
                       t3 = poke t2 key v2
                   in Inr (map_update ebpf_map_size t3 key v2))))"

definition do_return :: "key_t table \<Rightarrow> string \<Rightarrow> string \<Rightarrow> u64 \<Rightarrow> u64 \<Rightarrow> error + key_t table" where
  "do_return t fname_arg task_comm pid_tgid endTime =
     (case strcpy (zero_buf 64) fname_arg of
        Inl e \<Rightarrow> Inl e
      | Inr f \<Rightarrow>
          (let key = \<lparr>fname = f, comm = bpf_get_current_comm 64 task_comm,
                       pid = ucast pid_tgid, sysid = 0\<rparr>
           in case map_lookup t key of
                None \<Rightarrow> Inr t
              | Some v \<Rightarrow>
                  if startTime v = 0 then Inr t
                  else
                    (let v1 = v\<lparr>cumLat := cumLat v + (endTime - startTime v)\<rparr>;
                         t1 = poke t key v1
                     in Inr (map_update ebpf_map_size t1 key v1))))"

definition sys_enter :: "key_t table \<Rightarrow> u64 \<Rightarrow> string \<Rightarrow> u64 \<Rightarrow> u64 \<Rightarrow> key_t table" where
  "sys_enter t sid task_comm pid_tgid stime =
     (let key = \<lparr>fname = zero_buf 64, comm = bpf_get_current_comm 64 task_comm,
                  pid = ucast pid_tgid, sysid = ucast sid\<rparr>;
          valZero = \<lparr>counter = 0, startTime = 0, cumLat = 0\<rparr>
      in case map_lookup_or_init ebpf_map_size t key valZero of
           (t1, None) \<Rightarrow> t1
         | (t1, Some v) \<Rightarrow>
             (let v1 = v\<lparr>counter := counter v + 1\<rparr>;
                  t2 = poke t1 key v1;
                  v2 = v1\<lparr>startTime := stime\<rparr>;
                  t3 = poke t2 key v2
              in map_update ebpf_map_size t3 key v2))"

definition sys_exit :: "key_t table \<Rightarrow> u64 \<Rightarrow> string \<Rightarrow> u64 \<Rightarrow> u64 \<Rightarrow> key_t table" where
  "sys_exit t sid task_comm pid_tgid endTime =
     (let key = \<lparr>fname = zero_buf 64, comm = bpf_get_current_comm 64 task_comm,
                  pid = ucast pid_tgid, sysid = ucast sid\<rparr>
      in case map_lookup t key of
           None \<Rightarrow> t
         | Some v \<Rightarrow>
             (let v1 = v\<lparr>cumLat := cumLat v + (endTime - startTime v)\<rparr>;
                  t1 = poke t key v1
              in map_update ebpf_map_size t1 key v1))"

section \<open>The probes of usdt.c\<close>

definition usdt_gc_start :: "usdt_key_t table \<Rightarrow> string \<Rightarrow> u64 \<Rightarrow> u64 \<Rightarrow> usdt_key_t table" where
  "usdt_gc_start t task_comm pid_tgid stime =
     (let key = \<lparr>usdt_fname = buf_of 64 ''garbage_collector'',
                  usdt_comm = bpf_get_current_comm 64 task_comm,
                  usdt_pid = ucast pid_tgid\<rparr>;
          valZero = \<lparr>counter = 0, startTime = 0, cumLat = 0\<rparr>
      in case map_lookup_or_try_init usdt_map_size t key valZero of
           (t1, None) \<Rightarrow> t1
         | (t1, Some v) \<Rightarrow>
             (let v1 = v\<lparr>counter := counter v + 1\<rparr>;
                  t2 = poke t1 key v1;
                  v2 = v1\<lparr>startTime := stime\<rparr>;
                  t3 = poke t2 key v2
              in map_update usdt_map_size t3 key v2))"

definition usdt_gc_done :: "usdt_key_t table \<Rightarrow> string \<Rightarrow> u64 \<Rightarrow> u64 \<Rightarrow> usdt_key_t table" where
  "usdt_gc_done t task_comm pid_tgid endTime =
     (let key = \<lparr>usdt_fname = buf_of 64 ''garbage_collector'',
                  usdt_comm = bpf_get_current_comm 64 task_comm,
                  usdt_pid = ucast pid_tgid\<rparr>;
          defaultVal = \<lparr>counter = 1, startTime = 0, cumLat = 0\<rparr>\<lparr>startTime := endTime\<rparr>
      in case map_lookup_or_try_init usdt_map_size t key defaultVal of
           (t1, None) \<Rightarrow> t1
         | (t1, Some v) \<Rightarrow>
             (let v1 = v\<lparr>cumLat := cumLat v + (endTime - startTime v)\<rparr>;
                  t2 = poke t1 key v1
              in map_update usdt_map_size t2 key v1))"

text \<open>
  In \<^verbatim>\<open>usdt_enter\<close> and \<^verbatim>\<open>usdt_return\<close> the result of \<^verbatim>\<open>bpf_probe_read_str\<close> is
  stored in \<^verbatim>\<open>u32 ret\<close> and then tested with \<^verbatim>\<open>ret < 0\<close>: the comparison is one of
  unsigned 32-bit values.
\<close>

definition usdt_enter :: "usdt_key_t table \<Rightarrow> user_mem \<Rightarrow> string \<Rightarrow> u64 \<Rightarrow> u64 \<Rightarrow> usdt_key_t table" where
  "usdt_enter t arg task_comm pid_tgid stime =
     (case bpf_probe_read_str (zero_buf 64) 64 arg of
        (r, f) \<Rightarrow>
          (let ret = (word_of_int r :: u32) in
           if ret < 0 then t
           else
             (let key = \<lparr>usdt_fname = f, usdt_comm = bpf_get_current_comm 64 task_comm,
                          usdt_pid = ucast pid_tgid\<rparr>;
                  valZero = \<lparr>counter = 0, startTime = 0, cumLat = 0\<rparr>
              in case map_lookup_or_try_init usdt_map_size t key valZero of
                   (t1, None) \<Rightarrow> t1
                 | (t1, Some v) \<Rightarrow>
                     (let v1 = v\<lparr>counter := counter v + 1\<rparr>;
                          t2 = poke t1 key v1;
                          v2 = v1\<lparr>startTime := stime\<rparr>;
                          t3 = poke t2 key v2
                      in map_update usdt_map_size t3 key v2))))"

definition usdt_return :: "usdt_key_t table \<Rightarrow> user_mem \<Rightarrow> string \<Rightarrow> u64 \<Rightarrow> u64 \<Rightarrow> usdt_key_t table" where
  "usdt_return t arg task_comm pid_tgid endTime =
     (case bpf_probe_read_str (zero_buf 64) 64 arg of
        (r, f) \<Rightarrow>
          (let ret = (word_of_int r :: u32) in
           if ret < 0 then t
           else
             (let key = \<lparr>usdt_fname = f, usdt_comm = bpf_get_current_comm 64 task_comm,
                          usdt_pid = ucast pid_tgid\<rparr>;
                  defaultVal = \<lparr>counter = 1, startTime = 0, cumLat = 0\<rparr>\<lparr>startTime := endTime\<rparr>
              in case map_lookup_or_try_init usdt_map_size t key defaultVal of
                   (t1, None) \<Rightarrow> t1
                 | (t1, Some v) \<Rightarrow>
                     (let v1 = v\<lparr>cumLat := cumLat v + (endTime - startTime v)\<rparr>;
                          t2 = poke t1 key v1
                      in map_update usdt_map_size t2 key v1))))"

section \<open>Sequences of events\<close>

text \<open>
  The attachment layer calls one probe per observed event. An event names the probe and
  carries what the probe reads; a run feeds a list of events to the probes of one
  program, in order, each on the table the previous one left. A run of \<^verbatim>\<open>ebpf.c\<close>
  stops at the first probe that fails.
\<close>

datatype ebpf_event =
    DoEnter string string u64 u64
  | DoReturn string string u64 u64
  | SysEnter u64 string u64 u64
  | SysExit u64 string u64 u64

fun ebpf_step :: "key_t table \<Rightarrow> ebpf_event \<Rightarrow> error + key_t table" where
  "ebpf_step t (DoEnter f c p s) = do_enter t f c p s"
| "ebpf_step t (DoReturn f c p e) = do_return t f c p e"
| "ebpf_step t (SysEnter i c p s) = Inr (sys_enter t i c p s)"
| "ebpf_step t (SysExit i c p e) = Inr (sys_exit t i c p e)"

fun ebpf_run :: "key_t table \<Rightarrow> ebpf_event list \<Rightarrow> error + key_t table" where
  "ebpf_run t [] = Inr t"
| "ebpf_run t (e # es) = (case ebpf_step t e of Inl x \<Rightarrow> Inl x | Inr t' \<Rightarrow> ebpf_run t' es)"

datatype usdt_event =
    GcStart string u64 u64
  | GcDone string u64 u64
  | UsdtEnter user_mem string u64 u64
  | UsdtReturn user_mem string u64 u64

fun usdt_step :: "usdt_key_t table \<Rightarrow> usdt_event \<Rightarrow> usdt_key_t table" where
  "usdt_step t (GcStart c p s) = usdt_gc_start t c p s"
| "usdt_step t (GcDone c p e) = usdt_gc_done t c p e"
| "usdt_step t (UsdtEnter a c p s) = usdt_enter t a c p s"
| "usdt_step t (UsdtReturn a c p e) = usdt_return t a c p e"

fun usdt_run :: "usdt_key_t table \<Rightarrow> usdt_event list \<Rightarrow> usdt_key_t table" where
  "usdt_run t [] = t"
| "usdt_run t (e # es) = usdt_run (usdt_step t e) es"

section \<open>Vocabulary for the statements\<close>

text \<open>The key each probe builds, as a function of what it reads.\<close>

definition fn_key :: "string \<Rightarrow> string \<Rightarrow> u64 \<Rightarrow> error + key_t" where
  "fn_key fname_arg task_comm pid_tgid =
     (case strcpy (zero_buf 64) fname_arg of
        Inl e \<Rightarrow> Inl e
      | Inr f \<Rightarrow> Inr \<lparr>fname = f, comm = bpf_get_current_comm 64 task_comm,
                       pid = ucast pid_tgid, sysid = 0\<rparr>)"

definition sys_key :: "u64 \<Rightarrow> string \<Rightarrow> u64 \<Rightarrow> key_t" where
  "sys_key sid task_comm pid_tgid =
     \<lparr>fname = zero_buf 64, comm = bpf_get_current_comm 64 task_comm,
      pid = ucast pid_tgid, sysid = ucast sid\<rparr>"

definition gc_key :: "string \<Rightarrow> u64 \<Rightarrow> usdt_key_t" where
  "gc_key task_comm pid_tgid =
     \<lparr>usdt_fname = buf_of 64 ''garbage_collector'',
      usdt_comm = bpf_get_current_comm 64 task_comm, usdt_pid = ucast pid_tgid\<rparr>"

definition usdt_key :: "user_mem \<Rightarrow> string \<Rightarrow> u64 \<Rightarrow> usdt_key_t" where
  "usdt_key arg task_comm pid_tgid =
     \<lparr>usdt_fname = snd (bpf_probe_read_str (zero_buf 64) 64 arg),
      usdt_comm = bpf_get_current_comm 64 task_comm, usdt_pid = ucast pid_tgid\<rparr>"

fun ebpf_key :: "ebpf_event \<Rightarrow> error + key_t" where
  "ebpf_key (DoEnter f c p s) = fn_key f c p"
| "ebpf_key (DoReturn f c p e) = fn_key f c p"
| "ebpf_key (SysEnter i c p s) = Inr (sys_key i c p)"
| "ebpf_key (SysExit i c p e) = Inr (sys_key i c p)"

fun usdt_event_key :: "usdt_event \<Rightarrow> usdt_key_t" where
  "usdt_event_key (GcStart c p s) = gc_key c p"
| "usdt_event_key (GcDone c p e) = gc_key c p"
| "usdt_event_key (UsdtEnter a c p s) = usdt_key a c p"
| "usdt_event_key (UsdtReturn a c p e) = usdt_key a c p"

text \<open>
  What the three kinds of probe body do to a table, written without pointers:
  \<open>entered\<close> is the body shared by all entry probes, \<open>left_guarded\<close> the one of
  \<^verbatim>\<open>do_return\<close>, \<open>left_plain\<close> the one of \<^verbatim>\<open>sys_exit\<close>, and \<open>left_init\<close> the one of
  \<^verbatim>\<open>usdt_return\<close> and \<^verbatim>\<open>usdt_gc_done\<close>. The lemmas \<open>*_effect\<close> below prove that
  the probes compute exactly these.
\<close>

definition entered :: "nat \<Rightarrow> 'k table \<Rightarrow> 'k \<Rightarrow> u64 \<Rightarrow> 'k table" where
  "entered cap t k s =
     (case map_of t k of
        None \<Rightarrow>
          (if length t < cap then t @ [(k, \<lparr>counter = 1, startTime = s, cumLat = 0\<rparr>)] else t)
      | Some v \<Rightarrow> AList.update k (v\<lparr>counter := counter v + 1, startTime := s\<rparr>) t)"

definition accumulate :: "value_t \<Rightarrow> u64 \<Rightarrow> value_t" where
  "accumulate v e = v\<lparr>cumLat := cumLat v + (e - startTime v)\<rparr>"

definition left_guarded :: "'k table \<Rightarrow> 'k \<Rightarrow> u64 \<Rightarrow> 'k table" where
  "left_guarded t k e =
     (case map_of t k of
        None \<Rightarrow> t
      | Some v \<Rightarrow> if startTime v = 0 then t else AList.update k (accumulate v e) t)"

definition left_plain :: "'k table \<Rightarrow> 'k \<Rightarrow> u64 \<Rightarrow> 'k table" where
  "left_plain t k e =
     (case map_of t k of
        None \<Rightarrow> t
      | Some v \<Rightarrow> AList.update k (accumulate v e) t)"

definition left_init :: "nat \<Rightarrow> 'k table \<Rightarrow> 'k \<Rightarrow> u64 \<Rightarrow> 'k table" where
  "left_init cap t k e =
     (case map_of t k of
        None \<Rightarrow>
          (if length t < cap then t @ [(k, \<lparr>counter = 1, startTime = e, cumLat = 0\<rparr>)] else t)
      | Some v \<Rightarrow> AList.update k (accumulate v e) t)"

text \<open>
  An event is free of wrap-around on a table when the arithmetic it performs on the
  stored value of its key stays within the width of the field: the 32-bit counter of an
  entry, the 64-bit sum of an exit that accumulates.
\<close>

definition counter_fits :: "value_t \<Rightarrow> bool" where
  "counter_fits v = (unat (counter v) + 1 < 2 ^ 32)"

definition sum_fits :: "value_t \<Rightarrow> u64 \<Rightarrow> bool" where
  "sum_fits v e = (unat (cumLat v) + unat (e - startTime v) < 2 ^ 64)"

fun ebpf_fits :: "key_t table \<Rightarrow> ebpf_event \<Rightarrow> bool" where
  "ebpf_fits t (DoEnter f c p s) =
     (case fn_key f c p of Inl x \<Rightarrow> True
      | Inr k \<Rightarrow> (case map_of t k of None \<Rightarrow> True | Some v \<Rightarrow> counter_fits v))"
| "ebpf_fits t (DoReturn f c p e) =
     (case fn_key f c p of Inl x \<Rightarrow> True
      | Inr k \<Rightarrow> (case map_of t k of None \<Rightarrow> True
                  | Some v \<Rightarrow> if startTime v = 0 then True else sum_fits v e))"
| "ebpf_fits t (SysEnter i c p s) =
     (case map_of t (sys_key i c p) of None \<Rightarrow> True | Some v \<Rightarrow> counter_fits v)"
| "ebpf_fits t (SysExit i c p e) =
     (case map_of t (sys_key i c p) of None \<Rightarrow> True | Some v \<Rightarrow> sum_fits v e)"

fun ebpf_run_fits :: "key_t table \<Rightarrow> ebpf_event list \<Rightarrow> bool" where
  "ebpf_run_fits t [] = True"
| "ebpf_run_fits t (e # es) =
     (ebpf_fits t e \<and>
      (case ebpf_step t e of Inl x \<Rightarrow> True | Inr t' \<Rightarrow> ebpf_run_fits t' es))"

fun usdt_fits :: "usdt_key_t table \<Rightarrow> usdt_event \<Rightarrow> bool" where
  "usdt_fits t (GcStart c p s) =
     (case map_of t (gc_key c p) of None \<Rightarrow> True | Some v \<Rightarrow> counter_fits v)"
| "usdt_fits t (GcDone c p e) =
     (case map_of t (gc_key c p) of None \<Rightarrow> True | Some v \<Rightarrow> sum_fits v e)"
| "usdt_fits t (UsdtEnter a c p s) =
     (case map_of t (usdt_key a c p) of None \<Rightarrow> True | Some v \<Rightarrow> counter_fits v)"
| "usdt_fits t (UsdtReturn a c p e) =
     (case map_of t (usdt_key a c p) of None \<Rightarrow> True | Some v \<Rightarrow> sum_fits v e)"

fun usdt_run_fits :: "usdt_key_t table \<Rightarrow> usdt_event list \<Rightarrow> bool" where
  "usdt_run_fits t [] = True"
| "usdt_run_fits t (e # es) = (usdt_fits t e \<and> usdt_run_fits (usdt_step t e) es)"

text \<open>The value a key has after a probe or a run of \<^verbatim>\<open>ebpf.c\<close> that may have failed.\<close>

definition lookup_result :: "error + 'k table \<Rightarrow> 'k \<Rightarrow> value_t option" where
  "lookup_result r k = (case r of Inl x \<Rightarrow> None | Inr t \<Rightarrow> map_lookup t k)"

text \<open>
  The accumulated latency and the call count of a key; a key that is not in the table has
  accumulated nothing and was never counted.
\<close>

definition latency :: "'k table \<Rightarrow> 'k \<Rightarrow> u64" where
  "latency t k = (case map_lookup t k of None \<Rightarrow> 0 | Some v \<Rightarrow> cumLat v)"

definition calls :: "'k table \<Rightarrow> 'k \<Rightarrow> u32" where
  "calls t k = (case map_lookup t k of None \<Rightarrow> 0 | Some v \<Rightarrow> counter v)"

text \<open>
  Two tables at capacity, for the examples: one entry per syscall id (respectively per
  thread id) of a task named \<open>old\<close>.
\<close>

definition full_ebpf_table :: "key_t table" where
  "full_ebpf_table =
     map (\<lambda>n. (sys_key (of_nat n) ''old'' 1, \<lparr>counter = 1, startTime = 10, cumLat = 0\<rparr>))
       [0..<ebpf_map_size]"

definition full_usdt_table :: "usdt_key_t table" where
  "full_usdt_table =
     map (\<lambda>n. (gc_key ''old'' (of_nat n), \<lparr>counter = 1, startTime = 10, cumLat = 0\<rparr>))
       [0..<usdt_map_size]"

section \<open>The probes and their effects\<close>

lemmas fits_defs = counter_fits_def sum_fits_def

lemma map_of_snoc:
  "map_of (t @ [(k, v)]) k' =
     (case map_of t k' of None \<Rightarrow> (if k' = k then Some v else None) | Some w \<Rightarrow> Some w)"
  by (simp add: map_add_def split: option.splits)

lemma update_snoc_same:
  "map_of t k = None \<Longrightarrow> AList.update k v (t @ [(k, w)]) = t @ [(k, v)]"
  by (induction t) (auto split: if_splits)

text \<open>
  Each probe, pointer writes and the final \<^verbatim>\<open>map.update\<close> included, computes the
  effect named for its body.
\<close>

lemma sys_enter_effect: "sys_enter t sid c p s = entered ebpf_map_size t (sys_key sid c p) s"
  unfolding sys_enter_def entered_def sys_key_def map_lookup_or_init_def
    map_lookup_or_try_init_def map_lookup_def map_insert_def map_update_def poke_def Let_def
  by (auto simp: map_of_snoc update_snoc_same update_conv' split: option.splits)

lemma sys_exit_effect: "sys_exit t sid c p e = left_plain t (sys_key sid c p) e"
  unfolding sys_exit_def left_plain_def sys_key_def accumulate_def
    map_lookup_def map_update_def poke_def Let_def
  by (auto simp: update_conv' split: option.splits)

lemma do_enter_effect:
  "do_enter t f c p s =
     (case fn_key f c p of Inl x \<Rightarrow> Inl x | Inr k \<Rightarrow> Inr (entered ebpf_map_size t k s))"
  unfolding do_enter_def entered_def fn_key_def map_lookup_or_init_def
    map_lookup_or_try_init_def map_lookup_def map_insert_def map_update_def poke_def Let_def
  by (auto simp: map_of_snoc update_snoc_same update_conv' split: option.splits sum.splits)

lemma do_return_effect:
  "do_return t f c p e =
     (case fn_key f c p of Inl x \<Rightarrow> Inl x | Inr k \<Rightarrow> Inr (left_guarded t k e))"
  unfolding do_return_def left_guarded_def fn_key_def accumulate_def
    map_lookup_def map_update_def poke_def Let_def
  by (auto simp: update_conv' split: option.splits sum.splits)

lemma usdt_gc_start_effect: "usdt_gc_start t c p s = entered usdt_map_size t (gc_key c p) s"
  unfolding usdt_gc_start_def entered_def gc_key_def
    map_lookup_or_try_init_def map_lookup_def map_insert_def map_update_def poke_def Let_def
  by (auto simp: map_of_snoc update_snoc_same update_conv' split: option.splits)

lemma usdt_gc_done_effect: "usdt_gc_done t c p e = left_init usdt_map_size t (gc_key c p) e"
  unfolding usdt_gc_done_def left_init_def gc_key_def accumulate_def
    map_lookup_or_try_init_def map_lookup_def map_insert_def map_update_def poke_def Let_def
  by (auto simp: map_of_snoc update_snoc_same update_conv' split: option.splits)

lemma usdt_enter_effect: "usdt_enter t a c p s = entered usdt_map_size t (usdt_key a c p) s"
  unfolding usdt_enter_def entered_def usdt_key_def
    map_lookup_or_try_init_def map_lookup_def map_insert_def map_update_def poke_def Let_def
  by (auto simp: map_of_snoc update_snoc_same update_conv' split: option.splits prod.splits)

lemma usdt_return_effect: "usdt_return t a c p e = left_init usdt_map_size t (usdt_key a c p) e"
  unfolding usdt_return_def left_init_def usdt_key_def accumulate_def
    map_lookup_or_try_init_def map_lookup_def map_insert_def map_update_def poke_def Let_def
  by (auto simp: map_of_snoc update_snoc_same update_conv' split: option.splits prod.splits)

subsection \<open>The buffers the string helpers leave\<close>

lemma strcpy_zero_buf:
  "length (c_str s) < n \<Longrightarrow> strcpy (zero_buf n) s = Inr (buf_of n (c_str s))"
proof -
  assume a: "length (c_str s) < n"
  then have "n - length (c_str s) = Suc (n - Suc (length (c_str s)))" by simp
  then have "replicate (n - length (c_str s)) NUL = NUL # replicate (n - Suc (length (c_str s))) NUL"
    by simp
  with a show ?thesis by (simp add: strcpy_def zero_buf_def buf_of_def Let_def)
qed

lemma strcpy_overflow:
  "n \<le> length (c_str s) \<Longrightarrow> strcpy (zero_buf n) s = Inl BufferOverflow"
  by (simp add: strcpy_def zero_buf_def Let_def)

lemma fn_key_short:
  "length (c_str f) < 64 \<Longrightarrow>
   fn_key f c p = Inr \<lparr>fname = buf_of 64 (c_str f), comm = bpf_get_current_comm 64 c,
                       pid = ucast p, sysid = 0\<rparr>"
  by (simp add: fn_key_def strcpy_zero_buf)

lemma read_str_zero_buf:
  "bpf_probe_read_str (zero_buf 64) 64 (Bytes bs) =
     (int (length (take 63 (c_str bs))) + 1, buf_of 64 (take 63 (c_str bs)))"
proof -
  let ?s = "take 63 (c_str bs)"
  have "64 - length ?s = Suc (64 - Suc (length ?s))" by simp
  then have "replicate (64 - length ?s) NUL = NUL # replicate (64 - Suc (length ?s)) NUL"
    by (simp only: replicate_Suc)
  then show ?thesis by (simp add: bpf_probe_read_str_def zero_buf_def buf_of_def Let_def)
qed

lemma get_comm_buf: "bpf_get_current_comm 64 c = buf_of 64 (take 63 (c_str c))"
  by (simp add: bpf_get_current_comm_def buf_of_def)

lemma usdt_key_bytes:
  "usdt_key (Bytes bs) c p =
     \<lparr>usdt_fname = buf_of 64 (take 63 (c_str bs)), usdt_comm = bpf_get_current_comm 64 c,
      usdt_pid = ucast p\<rparr>"
  by (simp add: usdt_key_def read_str_zero_buf)

lemma usdt_key_fault:
  "usdt_key Fault c p =
     \<lparr>usdt_fname = zero_buf 64, usdt_comm = bpf_get_current_comm 64 c, usdt_pid = ucast p\<rparr>"
  by (simp add: usdt_key_def bpf_probe_read_str_def zero_buf_def)

lemmas eval_simps = do_enter_effect do_return_effect sys_enter_effect sys_exit_effect
  usdt_gc_start_effect usdt_gc_done_effect usdt_enter_effect usdt_return_effect
  entered_def left_guarded_def left_plain_def left_init_def accumulate_def
  fn_key_short usdt_key_bytes usdt_key_fault sys_key_def gc_key_def get_comm_buf
  buf_of_def zero_buf_def c_str_def NUL_def ebpf_map_size_def usdt_map_size_def
  map_lookup_def lookup_result_def latency_def calls_def

subsection \<open>Lookups after a probe body\<close>

lemma map_of_entered:
  "map_of (entered cap t k s) k' =
     (if k' = k then
        (case map_of t k of
           None \<Rightarrow> if length t < cap then Some \<lparr>counter = 1, startTime = s, cumLat = 0\<rparr> else None
         | Some v \<Rightarrow> Some (v\<lparr>counter := counter v + 1, startTime := s\<rparr>))
      else map_of t k')"
  by (auto simp: entered_def map_add_def update_conv' split: option.splits)

lemma map_of_left_guarded:
  "map_of (left_guarded t k e) k' =
     (if k' = k then
        (case map_of t k of
           None \<Rightarrow> None
         | Some v \<Rightarrow> if startTime v = 0 then Some v else Some (accumulate v e))
      else map_of t k')"
  by (auto simp: left_guarded_def update_conv' split: option.splits)

lemma map_of_left_plain:
  "map_of (left_plain t k e) k' =
     (if k' = k then map_option (\<lambda>v. accumulate v e) (map_of t k) else map_of t k')"
  by (auto simp: left_plain_def update_conv' split: option.splits)

lemma map_of_left_init:
  "map_of (left_init cap t k e) k' =
     (if k' = k then
        (case map_of t k of
           None \<Rightarrow> if length t < cap then Some \<lparr>counter = 1, startTime = e, cumLat = 0\<rparr> else None
         | Some v \<Rightarrow> Some (accumulate v e))
      else map_of t k')"
  by (auto simp: left_init_def map_add_def update_conv' split: option.splits)

lemma entered_full: "map_of t k = None \<Longrightarrow> cap \<le> length t \<Longrightarrow> entered cap t k s = t"
  by (simp add: entered_def)

lemma lookup_or_try_init_full:
  "map_of t k = None \<Longrightarrow> cap \<le> length t \<Longrightarrow> map_lookup_or_try_init cap t k z = (t, None)"
  by (simp add: map_lookup_or_try_init_def map_lookup_def map_insert_def)

subsection \<open>Runs, and the keys an event does not touch\<close>

lemma ebpf_run_append:
  "ebpf_run t (xs @ ys) = (case ebpf_run t xs of Inl x \<Rightarrow> Inl x | Inr t' \<Rightarrow> ebpf_run t' ys)"
  by (induction xs arbitrary: t) (auto split: sum.splits)

lemma usdt_run_append: "usdt_run t (xs @ ys) = usdt_run (usdt_run t xs) ys"
  by (induction xs arbitrary: t) auto

lemma ebpf_step_other:
  "ebpf_step t e = Inr t' \<Longrightarrow> ebpf_key e \<noteq> Inr k \<Longrightarrow> map_of t' k = map_of t k"
  by (cases e)
    (auto simp: do_enter_effect do_return_effect sys_enter_effect sys_exit_effect
      map_of_entered map_of_left_guarded map_of_left_plain split: sum.splits)

lemma ebpf_run_other:
  "ebpf_run t es = Inr t' \<Longrightarrow> \<forall>e\<in>set es. ebpf_key e \<noteq> Inr k \<Longrightarrow> map_of t' k = map_of t k"
proof (induction es arbitrary: t)
  case Nil
  then show ?case by simp
next
  case (Cons e es)
  from Cons.prems(1) obtain t1 where s: "ebpf_step t e = Inr t1" and r: "ebpf_run t1 es = Inr t'"
    by (auto split: sum.splits)
  from Cons.prems(2) have "ebpf_key e \<noteq> Inr k" and "\<forall>e\<in>set es. ebpf_key e \<noteq> Inr k" by simp_all
  with Cons.IH [OF r] ebpf_step_other [OF s] show ?case by simp
qed

lemma usdt_step_other:
  "usdt_event_key e \<noteq> k \<Longrightarrow> map_of (usdt_step t e) k = map_of t k"
  by (cases e)
    (auto simp: usdt_gc_start_effect usdt_gc_done_effect usdt_enter_effect usdt_return_effect
      map_of_entered map_of_left_init)

lemma usdt_run_other:
  "\<forall>e\<in>set es. usdt_event_key e \<noteq> k \<Longrightarrow> map_of (usdt_run t es) k = map_of t k"
  by (induction es arbitrary: t) (auto simp: usdt_step_other)

lemma ebpf_run_fits_append:
  "ebpf_run_fits t (xs @ ys) \<Longrightarrow> ebpf_run t xs = Inr t1 \<Longrightarrow> ebpf_run_fits t1 ys"
  by (induction xs arbitrary: t) (auto split: sum.splits)

lemma usdt_run_fits_append:
  "usdt_run_fits t (xs @ ys) \<Longrightarrow> usdt_run_fits (usdt_run t xs) ys"
  by (induction xs arbitrary: t) auto

subsection \<open>The example tables\<close>

lemma comm_new_old: "bpf_get_current_comm 64 ''old'' \<noteq> bpf_get_current_comm 64 ''new''"
  by (simp add: bpf_get_current_comm_def c_str_def NUL_def)

lemma full_ebpf_table_length: "length full_ebpf_table = ebpf_map_size"
  by (simp add: full_ebpf_table_def)

lemma full_usdt_table_length: "length full_usdt_table = usdt_map_size"
  by (simp add: full_usdt_table_def)

lemma full_ebpf_table_new:
  "comm k = bpf_get_current_comm 64 ''new'' \<Longrightarrow> map_of full_ebpf_table k = None"
  by (auto simp: full_ebpf_table_def map_of_eq_None_iff sys_key_def image_iff comm_new_old)

lemma full_usdt_table_new:
  "usdt_comm k = bpf_get_current_comm 64 ''new'' \<Longrightarrow> map_of full_usdt_table k = None"
  by (auto simp: full_usdt_table_def map_of_eq_None_iff gc_key_def image_iff comm_new_old)

lemma fn_key_f_new:
  "fn_key ''f'' ''new'' 1 =
     Inr \<lparr>fname = buf_of 64 ''f'', comm = bpf_get_current_comm 64 ''new'', pid = 1, sysid = 0\<rparr>"
  by (simp add: fn_key_short c_str_def NUL_def)

section \<open>An exit event whose key is not in the table\<close>

text \<open>
  C1, as the claim states it, fails on \<^verbatim>\<open>ebpf.c\<close>: \<^verbatim>\<open>do_return\<close> and \<^verbatim>\<open>sys_exit\<close> look
  the key up with \<^verbatim>\<open>map.lookup\<close> and return when it is missing, so an exit without a
  recorded entry creates nothing. On the empty table both leave the table empty.
\<close>

theorem unmatched_exit_counterexample:
  "do_return [] ''foo'' ''bash'' 77 150 = Inr [] \<and> sys_exit [] 3 ''bash'' 77 150 = []"
  by (simp add: eval_simps)

text \<open>
  C1, amended. For an exit event whose key is not in the table: \<^verbatim>\<open>usdt_return\<close> and
  \<^verbatim>\<open>usdt_gc_done\<close>, when the table has room, append the entry with \<open>counter = 1\<close>,
  \<open>startTime = now\<close> and \<open>cumLat = 0\<close> (the delta they add is \<open>now - now\<close>), and
  return the table unchanged when it is full; \<^verbatim>\<open>sys_exit\<close> and \<^verbatim>\<open>do_return\<close> always
  return the table unchanged. No probe accumulates a negative or wrapped delta for such
  an event.
\<close>

theorem unmatched_exit:
  "(map_lookup tu (usdt_key a c p) = None \<and> length tu < usdt_map_size \<longrightarrow>
      usdt_return tu a c p e =
        tu @ [(usdt_key a c p, \<lparr>counter = 1, startTime = e, cumLat = 0\<rparr>)] \<and>
      map_lookup (usdt_return tu a c p e) (usdt_key a c p) =
        Some \<lparr>counter = 1, startTime = e, cumLat = 0\<rparr>) \<and>
   (map_lookup tu (usdt_key a c p) = None \<and> usdt_map_size \<le> length tu \<longrightarrow>
      usdt_return tu a c p e = tu) \<and>
   (map_lookup tu (gc_key c p) = None \<and> length tu < usdt_map_size \<longrightarrow>
      usdt_gc_done tu c p e =
        tu @ [(gc_key c p, \<lparr>counter = 1, startTime = e, cumLat = 0\<rparr>)] \<and>
      map_lookup (usdt_gc_done tu c p e) (gc_key c p) =
        Some \<lparr>counter = 1, startTime = e, cumLat = 0\<rparr>) \<and>
   (map_lookup tu (gc_key c p) = None \<and> usdt_map_size \<le> length tu \<longrightarrow>
      usdt_gc_done tu c p e = tu) \<and>
   (map_lookup te (sys_key i c p) = None \<longrightarrow> sys_exit te i c p e = te) \<and>
   (fn_key f c p = Inr k \<and> map_lookup te k = None \<longrightarrow> do_return te f c p e = Inr te)"
  by (simp add: usdt_return_effect usdt_gc_done_effect sys_exit_effect do_return_effect
      map_lookup_def map_of_left_init)
     (simp add: left_init_def left_plain_def left_guarded_def)

text \<open>The four exit probes on the empty table, and the marker probes on a full one.\<close>

theorem unmatched_exit_witness:
  "usdt_return [] (Bytes ''foo'') ''bash'' 77 150 =
     [(usdt_key (Bytes ''foo'') ''bash'' 77, \<lparr>counter = 1, startTime = 150, cumLat = 0\<rparr>)] \<and>
   usdt_gc_done [] ''bash'' 77 150 =
     [(gc_key ''bash'' 77, \<lparr>counter = 1, startTime = 150, cumLat = 0\<rparr>)] \<and>
   sys_exit [] 3 ''bash'' 77 150 = [] \<and>
   do_return [] ''f'' ''new'' 1 150 = Inr [] \<and>
   usdt_return full_usdt_table (Bytes ''f'') ''new'' 1 150 = full_usdt_table \<and>
   usdt_gc_done full_usdt_table ''new'' 1 150 = full_usdt_table"
proof -
  have h5: "map_lookup full_usdt_table (usdt_key (Bytes ''f'') ''new'' 1) = None \<and>
      usdt_map_size \<le> length full_usdt_table"
    by (simp add: full_usdt_table_length map_lookup_def full_usdt_table_new usdt_key_def)
  have h6: "map_lookup full_usdt_table (gc_key ''new'' 1) = None \<and>
      usdt_map_size \<le> length full_usdt_table"
    by (simp add: full_usdt_table_length map_lookup_def full_usdt_table_new gc_key_def)
  from unmatched_exit [of full_usdt_table "Bytes ''f''" "''new''" 1 150 "[]" 3 "''f''"] h5 h6
  have c: "usdt_return full_usdt_table (Bytes ''f'') ''new'' 1 150 = full_usdt_table \<and>
   usdt_gc_done full_usdt_table ''new'' 1 150 = full_usdt_table"
    by simp
  have h1: "map_lookup [] (usdt_key (Bytes ''foo'') ''bash'' 77) = None \<and> length ([] :: usdt_key_t table) < usdt_map_size"
    by (simp add: map_lookup_def usdt_map_size_def)
  have h2: "map_lookup [] (gc_key ''bash'' 77) = None \<and> length ([] :: usdt_key_t table) < usdt_map_size"
    by (simp add: map_lookup_def usdt_map_size_def)
  have h3: "map_lookup [] (sys_key 3 ''bash'' 77) = None"
    by (simp add: map_lookup_def)
  have h4: "fn_key ''f'' ''new'' 1 =
        Inr \<lparr>fname = buf_of 64 ''f'', comm = bpf_get_current_comm 64 ''new'',
             pid = 1, sysid = 0\<rparr> \<and>
      map_lookup []
        \<lparr>fname = buf_of 64 ''f'', comm = bpf_get_current_comm 64 ''new'',
         pid = 1, sysid = 0\<rparr> = None"
    by (simp add: map_lookup_def fn_key_f_new)
  from unmatched_exit [of "[]" "Bytes ''foo''" "''bash''" 77 150 "[]" 3 "''f''" _ ] h1 h2 h3
  have a: "usdt_return [] (Bytes ''foo'') ''bash'' 77 150 =
     [(usdt_key (Bytes ''foo'') ''bash'' 77, \<lparr>counter = 1, startTime = 150, cumLat = 0\<rparr>)] \<and>
   usdt_gc_done [] ''bash'' 77 150 =
     [(gc_key ''bash'' 77, \<lparr>counter = 1, startTime = 150, cumLat = 0\<rparr>)] \<and>
   sys_exit [] 3 ''bash'' 77 150 = []" by simp
  from unmatched_exit [of "[]" "Bytes ''foo''" "''new''" 1 150 "[]" 3 "''f''"] h4
  have b: "do_return [] ''f'' ''new'' 1 150 = Inr []" by blast
  from a b c show ?thesis by simp
qed

section \<open>The sentinel \<open>startTime = 0\<close>\<close>

text \<open>
  \<^verbatim>\<open>do_return\<close> skips a stored value whose \<open>startTime\<close> is 0 and leaves the table as
  it is.
\<close>

lemma do_return_skips_sentinel:
  "fn_key f c p = Inr k \<Longrightarrow> map_lookup t k = Some v \<Longrightarrow> startTime v = 0 \<Longrightarrow>
   do_return t f c p e = Inr t"
  by (simp add: do_return_effect left_guarded_def map_lookup_def)

text \<open>
  C2 asks the same of every exit probe. \<^verbatim>\<open>sys_exit\<close> has no such test: on a stored
  value with \<open>startTime = 0\<close> and \<open>cumLat = 7\<close>, an exit at time 150 adds the whole
  timestamp and leaves \<open>cumLat = 157\<close>.
\<close>

theorem sys_exit_ignores_sentinel:
  "sys_exit [(sys_key 3 ''bash'' 77, \<lparr>counter = 1, startTime = 0, cumLat = 7\<rparr>)] 3 ''bash'' 77 150 =
     [(sys_key 3 ''bash'' 77, \<lparr>counter = 1, startTime = 0, cumLat = 157\<rparr>)]"
  by (simp add: eval_simps)

section \<open>A full table drops the entry event of a new key\<close>

text \<open>
  C3. When the table is at capacity and the key of an entry event is not in it, the
  lookup-or-init of the entry probe yields nothing and the probe returns the table as it
  found it: the event is dropped, and no entry of any key is evicted or changed. This
  holds for each of the four entry probes (\<^verbatim>\<open>sys_enter\<close>, \<^verbatim>\<open>do_enter\<close>,
  \<^verbatim>\<open>usdt_enter\<close>, \<^verbatim>\<open>usdt_gc_start\<close>).
\<close>

theorem full_table_drops_entry:
  "(ebpf_map_size \<le> length te \<and> map_lookup te (sys_key i c p) = None \<longrightarrow>
      map_lookup_or_init ebpf_map_size te (sys_key i c p) z = (te, None) \<and>
      sys_enter te i c p s = te) \<and>
   (ebpf_map_size \<le> length te \<and> fn_key f c p = Inr k \<and> map_lookup te k = None \<longrightarrow>
      map_lookup_or_init ebpf_map_size te k z = (te, None) \<and>
      do_enter te f c p s = Inr te) \<and>
   (usdt_map_size \<le> length tu \<and> map_lookup tu (usdt_key a c p) = None \<longrightarrow>
      map_lookup_or_try_init usdt_map_size tu (usdt_key a c p) z = (tu, None) \<and>
      usdt_enter tu a c p s = tu) \<and>
   (usdt_map_size \<le> length tu \<and> map_lookup tu (gc_key c p) = None \<longrightarrow>
      map_lookup_or_try_init usdt_map_size tu (gc_key c p) z = (tu, None) \<and>
      usdt_gc_start tu c p s = tu)"
  by (simp add: sys_enter_effect do_enter_effect usdt_enter_effect usdt_gc_start_effect
      entered_full lookup_or_try_init_full map_lookup_or_init_def map_lookup_def)

text \<open>The four probes on the two full example tables, for a task named \<open>new\<close>.\<close>

theorem full_table_drops_entry_witness:
  "ebpf_map_size \<le> length full_ebpf_table \<and>
   map_lookup full_ebpf_table (sys_key 7 ''new'' 1) = None \<and>
   sys_enter full_ebpf_table 7 ''new'' 1 500 = full_ebpf_table \<and>
   do_enter full_ebpf_table ''f'' ''new'' 1 500 = Inr full_ebpf_table \<and>
   usdt_map_size \<le> length full_usdt_table \<and>
   map_lookup full_usdt_table (usdt_key (Bytes ''f'') ''new'' 1) = None \<and>
   usdt_enter full_usdt_table (Bytes ''f'') ''new'' 1 500 = full_usdt_table \<and>
   usdt_gc_start full_usdt_table ''new'' 1 500 = full_usdt_table"
proof -
  have h1: "ebpf_map_size \<le> length full_ebpf_table \<and>
      map_lookup full_ebpf_table (sys_key 7 ''new'' 1) = None"
    by (simp add: full_ebpf_table_length map_lookup_def full_ebpf_table_new sys_key_def)
  have h2: "ebpf_map_size \<le> length full_ebpf_table \<and>
      fn_key ''f'' ''new'' 1 =
        Inr \<lparr>fname = buf_of 64 ''f'', comm = bpf_get_current_comm 64 ''new'',
             pid = 1, sysid = 0\<rparr> \<and>
      map_lookup full_ebpf_table
        \<lparr>fname = buf_of 64 ''f'', comm = bpf_get_current_comm 64 ''new'',
         pid = 1, sysid = 0\<rparr> = None"
    by (simp add: full_ebpf_table_length map_lookup_def full_ebpf_table_new fn_key_f_new)
  have h3: "usdt_map_size \<le> length full_usdt_table \<and>
      map_lookup full_usdt_table (usdt_key (Bytes ''f'') ''new'' 1) = None"
    by (simp add: full_usdt_table_length map_lookup_def full_usdt_table_new usdt_key_def)
  have h4: "usdt_map_size \<le> length full_usdt_table \<and>
      map_lookup full_usdt_table (gc_key ''new'' 1) = None"
    by (simp add: full_usdt_table_length map_lookup_def full_usdt_table_new gc_key_def)
  from full_table_drops_entry
    [of full_ebpf_table 7 "''new''" 1 _ 500 "''f''" _ full_usdt_table "Bytes ''f''"]
    h1 h2 h3 h4
  show ?thesis by blast
qed

section \<open>A failed read of the marker's string argument\<close>

text \<open>
  The result of \<^verbatim>\<open>bpf_probe_read_str\<close> is negative when the read fails, but the probes
  keep it in an unsigned variable: the test \<^verbatim>\<open>ret < 0\<close> is never true.
\<close>

lemma read_failure_never_detected: "(word_of_int (fst (bpf_probe_read_str dst n Fault)) :: u32) < 0 = False"
  by simp

text \<open>
  C4 says that a failed read drops the event without touching the table. On the empty
  table, \<^verbatim>\<open>usdt_enter\<close> and \<^verbatim>\<open>usdt_return\<close> with an unreadable argument go on with the
  zeroed name and insert an entry for it.
\<close>

theorem failed_read_still_recorded:
  "usdt_enter [] Fault ''bash'' 77 100 =
     [(\<lparr>usdt_fname = zero_buf 64, usdt_comm = buf_of 64 ''bash'', usdt_pid = 77\<rparr>,
       \<lparr>counter = 1, startTime = 100, cumLat = 0\<rparr>)] \<and>
   usdt_return [] Fault ''bash'' 77 150 =
     [(\<lparr>usdt_fname = zero_buf 64, usdt_comm = buf_of 64 ''bash'', usdt_pid = 77\<rparr>,
       \<lparr>counter = 1, startTime = 150, cumLat = 0\<rparr>)]"
  by (simp add: eval_simps)

section \<open>Names longer than the buffer\<close>

text \<open>
  The bounded helpers cut a long name to its first 63 bytes and a terminator: the name
  read by \<^verbatim>\<open>bpf_probe_read_str\<close> in the marker probes, and the task name written by
  \<^verbatim>\<open>bpf_get_current_comm\<close> in every probe.
\<close>

lemma usdt_name_truncated:
  "63 < length (c_str bs) \<Longrightarrow>
   usdt_fname (usdt_key (Bytes bs) c p) = take 63 (c_str bs) @ [NUL]"
  by (simp add: usdt_key_bytes buf_of_def)

lemma comm_truncated:
  "63 < length (c_str c) \<Longrightarrow> bpf_get_current_comm 64 c = take 63 (c_str c) @ [NUL]"
  by (simp add: get_comm_buf buf_of_def)

text \<open>
  \<^verbatim>\<open>do_enter\<close> copies the traced name with \<^verbatim>\<open>strcpy\<close>, which has no bound: a name of 64
  bytes or more overruns \<^verbatim>\<open>key.fname\<close>, and nothing is truncated.
\<close>

lemma do_enter_rejects_long:
  "63 < length (c_str f) \<Longrightarrow> do_enter t f c p s = Inl BufferOverflow"
  by (simp add: do_enter_effect fn_key_def strcpy_overflow)

text \<open>
  C5 says that every over-long name is stored as its first 63 bytes and a terminator.
  \<^verbatim>\<open>do_enter\<close> with a name of 65 bytes overruns the buffer instead.
\<close>

theorem long_name_overflows:
  "do_enter [] (replicate 65 CHR ''a'') ''bash'' 77 100 = Inl BufferOverflow"
  by (simp add: do_enter_effect fn_key_def strcpy_overflow c_str_def NUL_def)

section \<open>A matched entry and exit\<close>

lemma latency_entered:
  "map_of t k \<noteq> None \<or> length t < cap \<Longrightarrow>
   \<exists>v. map_of (entered cap t k s) k = Some v \<and> startTime v = s \<and> cumLat v = latency t k"
  by (auto simp: map_of_entered latency_def map_lookup_def split: option.splits)

lemma unat_latency_sum:
  fixes b t0 t1 :: u64
  shows "t0 \<le> t1 \<Longrightarrow> unat (b + (t1 - t0)) = (unat b + (unat t1 - unat t0)) mod 2 ^ 64"
  by (simp add: unat_word_ariths unat_sub)

lemma do_pair:
  assumes k: "fn_key f c p = Inr k"
    and room: "map_lookup t k \<noteq> None \<or> length t < ebpf_map_size"
    and mid: "\<forall>e\<in>set mid. ebpf_key e \<noteq> Inr k"
    and run: "ebpf_run t (DoEnter f c p t0 # mid @ [DoReturn f c p t1]) = Inr t'"
    and nz: "t0 \<noteq> 0"
  shows "latency t' k = latency t k + (t1 - t0)"
proof -
  let ?t1 = "entered ebpf_map_size t k t0"
  from run k obtain t2 where m: "ebpf_run ?t1 mid = Inr t2"
    and x: "do_return t2 f c p t1 = Inr t'"
    by (auto simp: do_enter_effect ebpf_run_append split: sum.splits)
  from room obtain v where v: "map_of ?t1 k = Some v" "startTime v = t0" "cumLat v = latency t k"
    using latency_entered [of t k ebpf_map_size t0] by (auto simp: map_lookup_def)
  from ebpf_run_other [OF m mid] v have "map_of t2 k = Some v" by simp
  with x k nz v show ?thesis
    by (auto simp: do_return_effect map_of_left_guarded latency_def map_lookup_def accumulate_def)
qed

lemma sys_pair:
  assumes room: "map_lookup t (sys_key i c p) \<noteq> None \<or> length t < ebpf_map_size"
    and mid: "\<forall>e\<in>set mid. ebpf_key e \<noteq> Inr (sys_key i c p)"
    and run: "ebpf_run t (SysEnter i c p t0 # mid @ [SysExit i c p t1]) = Inr t'"
  shows "latency t' (sys_key i c p) = latency t (sys_key i c p) + (t1 - t0)"
proof -
  let ?k = "sys_key i c p"
  let ?t1 = "entered ebpf_map_size t ?k t0"
  from run obtain t2 where m: "ebpf_run ?t1 mid = Inr t2"
    and x: "sys_exit t2 i c p t1 = t'"
    by (auto simp: sys_enter_effect ebpf_run_append split: sum.splits)
  from room obtain v where v: "map_of ?t1 ?k = Some v" "startTime v = t0" "cumLat v = latency t ?k"
    using latency_entered [of t ?k ebpf_map_size t0] by (auto simp: map_lookup_def)
  from ebpf_run_other [OF m mid] v have "map_of t2 ?k = Some v" by simp
  with x v show ?thesis
    by (auto simp: sys_exit_effect map_of_left_plain latency_def map_lookup_def accumulate_def)
qed

lemma usdt_pair:
  assumes room: "map_lookup t (usdt_key a c p) \<noteq> None \<or> length t < usdt_map_size"
    and mid: "\<forall>e\<in>set mid. usdt_event_key e \<noteq> usdt_key a c p"
  shows "latency (usdt_run t (UsdtEnter a c p t0 # mid @ [UsdtReturn a c p t1])) (usdt_key a c p)
     = latency t (usdt_key a c p) + (t1 - t0)"
proof -
  let ?k = "usdt_key a c p"
  let ?t1 = "entered usdt_map_size t ?k t0"
  from room obtain v where v: "map_of ?t1 ?k = Some v" "startTime v = t0" "cumLat v = latency t ?k"
    using latency_entered [of t ?k usdt_map_size t0] by (auto simp: map_lookup_def)
  from usdt_run_other [OF mid] v have "map_of (usdt_run ?t1 mid) ?k = Some v" by simp
  with v show ?thesis
    by (auto simp: usdt_run_append usdt_enter_effect usdt_return_effect map_of_left_init
        latency_def map_lookup_def accumulate_def)
qed

lemma gc_pair:
  assumes room: "map_lookup t (gc_key c p) \<noteq> None \<or> length t < usdt_map_size"
    and mid: "\<forall>e\<in>set mid. usdt_event_key e \<noteq> gc_key c p"
  shows "latency (usdt_run t (GcStart c p t0 # mid @ [GcDone c p t1])) (gc_key c p)
     = latency t (gc_key c p) + (t1 - t0)"
proof -
  let ?k = "gc_key c p"
  let ?t1 = "entered usdt_map_size t ?k t0"
  from room obtain v where v: "map_of ?t1 ?k = Some v" "startTime v = t0" "cumLat v = latency t ?k"
    using latency_entered [of t ?k usdt_map_size t0] by (auto simp: map_lookup_def)
  from usdt_run_other [OF mid] v have "map_of (usdt_run ?t1 mid) ?k = Some v" by simp
  with v show ?thesis
    by (auto simp: usdt_run_append usdt_gc_start_effect usdt_gc_done_effect map_of_left_init
        latency_def map_lookup_def accumulate_def)
qed

text \<open>
  C6, as the claim states it, fails for \<^verbatim>\<open>do_enter\<close> and \<^verbatim>\<open>do_return\<close> when the entry
  is stamped \<open>t0 = 0\<close>: \<^verbatim>\<open>do_return\<close> takes the stored 0 for the sentinel and adds
  nothing. Entry at 0 and exit at 5 leave \<open>cumLat = 0\<close>, not 5.
\<close>

theorem matched_pair_counterexample:
  "ebpf_run [] [DoEnter ''A'' ''bash'' 77 0, DoReturn ''A'' ''bash'' 77 5] =
     Inr [(\<lparr>fname = buf_of 64 ''A'', comm = buf_of 64 ''bash'', pid = 77, sysid = 0\<rparr>,
           \<lparr>counter = 1, startTime = 0, cumLat = 0\<rparr>)]"
  by (simp add: eval_simps)

text \<open>
  C6, amended. Take an entry event at \<open>t0\<close> that is recorded (its key is in the table
  or the table has room), then any events of other keys, then the exit event of the same
  key at \<open>t1 \<ge> t0\<close>. The accumulated latency of the key after the exit is the one
  before the entry plus \<open>t1 - t0\<close>, modulo \<open>2 ^ 64\<close> (so exactly that sum whenever it
  fits 64 bits). For \<^verbatim>\<open>do_enter\<close> and \<^verbatim>\<open>do_return\<close> this needs \<open>t0 \<noteq> 0\<close>.
\<close>

theorem matched_pair_adds_delta:
  "(t0 \<le> t1 \<and> t0 \<noteq> 0 \<and> fn_key f c p = Inr k \<and>
    (map_lookup te k \<noteq> None \<or> length te < ebpf_map_size) \<and>
    (\<forall>e\<in>set es. ebpf_key e \<noteq> Inr k) \<and>
    ebpf_run te (DoEnter f c p t0 # es @ [DoReturn f c p t1]) = Inr te' \<longrightarrow>
      unat (latency te' k) = (unat (latency te k) + (unat t1 - unat t0)) mod 2 ^ 64) \<and>
   (t0 \<le> t1 \<and>
    (map_lookup te (sys_key i c p) \<noteq> None \<or> length te < ebpf_map_size) \<and>
    (\<forall>e\<in>set es. ebpf_key e \<noteq> Inr (sys_key i c p)) \<and>
    ebpf_run te (SysEnter i c p t0 # es @ [SysExit i c p t1]) = Inr te' \<longrightarrow>
      unat (latency te' (sys_key i c p)) =
        (unat (latency te (sys_key i c p)) + (unat t1 - unat t0)) mod 2 ^ 64) \<and>
   (t0 \<le> t1 \<and>
    (map_lookup tu (usdt_key a c p) \<noteq> None \<or> length tu < usdt_map_size) \<and>
    (\<forall>e\<in>set us. usdt_event_key e \<noteq> usdt_key a c p) \<longrightarrow>
      unat (latency (usdt_run tu (UsdtEnter a c p t0 # us @ [UsdtReturn a c p t1]))
             (usdt_key a c p)) =
        (unat (latency tu (usdt_key a c p)) + (unat t1 - unat t0)) mod 2 ^ 64) \<and>
   (t0 \<le> t1 \<and>
    (map_lookup tu (gc_key c p) \<noteq> None \<or> length tu < usdt_map_size) \<and>
    (\<forall>e\<in>set us. usdt_event_key e \<noteq> gc_key c p) \<longrightarrow>
      unat (latency (usdt_run tu (GcStart c p t0 # us @ [GcDone c p t1])) (gc_key c p)) =
        (unat (latency tu (gc_key c p)) + (unat t1 - unat t0)) mod 2 ^ 64)"
proof (intro conjI impI)
  assume "t0 \<le> t1 \<and> t0 \<noteq> 0 \<and> fn_key f c p = Inr k \<and>
    (map_lookup te k \<noteq> None \<or> length te < ebpf_map_size) \<and>
    (\<forall>e\<in>set es. ebpf_key e \<noteq> Inr k) \<and>
    ebpf_run te (DoEnter f c p t0 # es @ [DoReturn f c p t1]) = Inr te'"
  then show "unat (latency te' k) = (unat (latency te k) + (unat t1 - unat t0)) mod 2 ^ 64"
    using do_pair [of f c p k te es t0 t1 te'] by (simp add: unat_latency_sum)
next
  assume "t0 \<le> t1 \<and>
    (map_lookup te (sys_key i c p) \<noteq> None \<or> length te < ebpf_map_size) \<and>
    (\<forall>e\<in>set es. ebpf_key e \<noteq> Inr (sys_key i c p)) \<and>
    ebpf_run te (SysEnter i c p t0 # es @ [SysExit i c p t1]) = Inr te'"
  then show "unat (latency te' (sys_key i c p)) =
        (unat (latency te (sys_key i c p)) + (unat t1 - unat t0)) mod 2 ^ 64"
    using sys_pair [of te i c p es t0 t1 te'] by (simp add: unat_latency_sum)
next
  assume "t0 \<le> t1 \<and>
    (map_lookup tu (usdt_key a c p) \<noteq> None \<or> length tu < usdt_map_size) \<and>
    (\<forall>e\<in>set us. usdt_event_key e \<noteq> usdt_key a c p)"
  then show "unat (latency (usdt_run tu (UsdtEnter a c p t0 # us @ [UsdtReturn a c p t1]))
             (usdt_key a c p)) =
        (unat (latency tu (usdt_key a c p)) + (unat t1 - unat t0)) mod 2 ^ 64"
    using usdt_pair [of tu a c p us t0 t1] by (simp add: unat_latency_sum)
next
  assume "t0 \<le> t1 \<and>
    (map_lookup tu (gc_key c p) \<noteq> None \<or> length tu < usdt_map_size) \<and>
    (\<forall>e\<in>set us. usdt_event_key e \<noteq> gc_key c p)"
  then show "unat (latency (usdt_run tu (GcStart c p t0 # us @ [GcDone c p t1])) (gc_key c p)) =
        (unat (latency tu (gc_key c p)) + (unat t1 - unat t0)) mod 2 ^ 64"
    using gc_pair [of tu c p us t0 t1] by (simp add: unat_latency_sum)
qed

text \<open>Entry at 100, an event of another key at 120, exit at 150, for each pair of probes.\<close>

theorem matched_pair_adds_delta_witness:
  "ebpf_run [] [DoEnter ''f'' ''new'' 1 100, SysEnter 3 ''bash'' 77 120,
       DoReturn ''f'' ''new'' 1 150] =
     Inr [(\<lparr>fname = buf_of 64 ''f'', comm = bpf_get_current_comm 64 ''new'', pid = 1,
             sysid = 0\<rparr>, \<lparr>counter = 1, startTime = 100, cumLat = 50\<rparr>),
          (sys_key 3 ''bash'' 77, \<lparr>counter = 1, startTime = 120, cumLat = 0\<rparr>)] \<and>
   ebpf_run [] [SysEnter 3 ''new'' 1 100, SysEnter 3 ''bash'' 77 120, SysExit 3 ''new'' 1 150] =
     Inr [(sys_key 3 ''new'' 1, \<lparr>counter = 1, startTime = 100, cumLat = 50\<rparr>),
          (sys_key 3 ''bash'' 77, \<lparr>counter = 1, startTime = 120, cumLat = 0\<rparr>)] \<and>
   latency (usdt_run [] [UsdtEnter (Bytes ''f'') ''new'' 1 100, GcStart ''bash'' 77 120,
       UsdtReturn (Bytes ''f'') ''new'' 1 150]) (usdt_key (Bytes ''f'') ''new'' 1) = 50 \<and>
   latency (usdt_run [] [GcStart ''new'' 1 100, GcStart ''bash'' 77 120, GcDone ''new'' 1 150])
     (gc_key ''new'' 1) = 50"
proof -
  let ?kf = "\<lparr>fname = buf_of 64 ''f'', comm = bpf_get_current_comm 64 ''new'', pid = 1,
             sysid = 0\<rparr>"
  let ?ks = "sys_key 3 ''bash'' 77"
  let ?T1 = "[(?kf, \<lparr>counter = 1, startTime = 100, cumLat = 50\<rparr>),
          (?ks, \<lparr>counter = 1, startTime = 120, cumLat = 0\<rparr>)]"
  let ?T2 = "[(sys_key 3 ''new'' 1, \<lparr>counter = 1, startTime = 100, cumLat = 50\<rparr>),
          (?ks, \<lparr>counter = 1, startTime = 120, cumLat = 0\<rparr>)]"
  have r1: "ebpf_run [] ([DoEnter ''f'' ''new'' 1 100] @ [SysEnter 3 ''bash'' 77 120] @
       [DoReturn ''f'' ''new'' 1 150]) = Inr ?T1"
    by (simp add: eval_simps)
  have r2: "ebpf_run [] ([SysEnter 3 ''new'' 1 100] @ [SysEnter 3 ''bash'' 77 120] @
        [SysExit 3 ''new'' 1 150]) = Inr ?T2"
    by (simp add: eval_simps)
  have o1: "\<forall>e\<in>set [SysEnter 3 ''bash'' 77 120]. ebpf_key e \<noteq> Inr ?kf"
    by (simp add: eval_simps)
  have o2: "\<forall>e\<in>set [SysEnter 3 ''bash'' 77 120]. ebpf_key e \<noteq> Inr (sys_key 3 ''new'' 1)"
    by (simp add: eval_simps)
  have o3: "\<forall>e\<in>set [GcStart ''bash'' 77 120]. usdt_event_key e \<noteq> usdt_key (Bytes ''f'') ''new'' 1"
    by (simp add: eval_simps)
  have o4: "\<forall>e\<in>set [GcStart ''bash'' 77 120]. usdt_event_key e \<noteq> gc_key ''new'' 1"
    by (simp add: eval_simps)
  have t: "(100 :: u64) \<le> 150" "(100 :: u64) \<noteq> 0" by simp_all
  have room: "length ([] :: key_t table) < ebpf_map_size" "length ([] :: usdt_key_t table) < usdt_map_size"
    by (simp_all add: ebpf_map_size_def usdt_map_size_def)
  note inst1 = matched_pair_adds_delta [of 100 150 "''f''" "''new''" 1 ?kf "[]"
      "[SysEnter 3 ''bash'' 77 120]" ?T1 3 "[]" "Bytes ''f''" "[GcStart ''bash'' 77 120]"]
  note inst2 = matched_pair_adds_delta [of 100 150 "''f''" "''new''" 1 ?kf "[]"
      "[SysEnter 3 ''bash'' 77 120]" ?T2 3 "[]" "Bytes ''f''" "[GcStart ''bash'' 77 120]"]
  from inst1 r1 o1 t room fn_key_f_new
  have c1: "unat (latency ?T1 ?kf) = (unat (latency [] ?kf) + (unat (150 :: u64) - unat (100 :: u64))) mod 2 ^ 64"
    by simp
  from inst2 r2 o2 t room
  have c2: "unat (latency ?T2 (sys_key 3 ''new'' 1)) =
      (unat (latency [] (sys_key 3 ''new'' 1)) + (unat (150 :: u64) - unat (100 :: u64))) mod 2 ^ 64"
    by simp
  from inst1 o3 t room
  have c3: "unat (latency (usdt_run [] (UsdtEnter (Bytes ''f'') ''new'' 1 100 # [GcStart ''bash'' 77 120] @
       [UsdtReturn (Bytes ''f'') ''new'' 1 150])) (usdt_key (Bytes ''f'') ''new'' 1)) = 
      (unat (latency [] (usdt_key (Bytes ''f'') ''new'' 1)) + (unat (150 :: u64) - unat (100 :: u64))) mod 2 ^ 64"
    by blast
  from inst1 o4 t room
  have c4: "unat (latency (usdt_run [] (GcStart ''new'' 1 100 # [GcStart ''bash'' 77 120] @
       [GcDone ''new'' 1 150])) (gc_key ''new'' 1)) = 
      (unat (latency [] (gc_key ''new'' 1)) + (unat (150 :: u64) - unat (100 :: u64))) mod 2 ^ 64"
    by blast
  have z: "latency ([] :: key_t table) k1 = 0" "latency ([] :: usdt_key_t table) k2 = 0" for k1 k2
    by (simp_all add: latency_def map_lookup_def)
  from c3 z have d3: "unat (latency (usdt_run [] [UsdtEnter (Bytes ''f'') ''new'' 1 100, GcStart ''bash'' 77 120,
       UsdtReturn (Bytes ''f'') ''new'' 1 150]) (usdt_key (Bytes ''f'') ''new'' 1)) = unat (50 :: u64)"
    by simp
  from c4 z have d4: "unat (latency (usdt_run [] [GcStart ''new'' 1 100, GcStart ''bash'' 77 120, GcDone ''new'' 1 150])
     (gc_key ''new'' 1)) = unat (50 :: u64)"
    by simp
  from r1 r2 d3 d4 show ?thesis
    by (simp only: append_Cons append_Nil word_unat_eq_iff [symmetric] simp_thms)
qed

section \<open>Counting the entry events of one key\<close>

lemma entered_fold_present:
  "map_of t k = Some v \<Longrightarrow>
   map_of (fold (\<lambda>s t. entered cap t k s) ts t) k =
     Some (v\<lparr>counter := counter v + of_nat (length ts), startTime := last (startTime v # ts)\<rparr>)"
proof (induction ts arbitrary: t v)
  case Nil
  then show ?case by simp
next
  case (Cons s ts)
  have "map_of (entered cap t k s) k = Some (v\<lparr>counter := counter v + 1, startTime := s\<rparr>)"
    using Cons.prems by (simp add: map_of_entered)
  from Cons.IH [OF this] show ?case by (simp add: add.assoc)
qed

lemma entered_fold_absent:
  assumes "map_of t k = None" "length t < cap"
  shows "calls (fold (\<lambda>s t. entered cap t k s) ts t) k = of_nat (length ts)"
proof (cases ts)
  case Nil
  with assms show ?thesis by (simp add: calls_def map_lookup_def)
next
  case (Cons s ts')
  have "map_of (entered cap t k s) k = Some \<lparr>counter = 1, startTime = s, cumLat = 0\<rparr>"
    using assms by (simp add: map_of_entered)
  from entered_fold_present [OF this, of cap ts'] Cons show ?thesis
    by (simp add: calls_def map_lookup_def)
qed

lemma sys_enter_run:
  "ebpf_run t (map (SysEnter i c p) ts) =
     Inr (fold (\<lambda>s t. entered ebpf_map_size t (sys_key i c p) s) ts t)"
  by (induction ts arbitrary: t) (simp_all add: sys_enter_effect)

lemma do_enter_run:
  "fn_key f c p = Inr k \<Longrightarrow>
   ebpf_run t (map (DoEnter f c p) ts) = Inr (fold (\<lambda>s t. entered ebpf_map_size t k s) ts t)"
  by (induction ts arbitrary: t) (simp_all add: do_enter_effect)

lemma usdt_enter_run:
  "usdt_run t (map (UsdtEnter a c p) ts) =
     fold (\<lambda>s t. entered usdt_map_size t (usdt_key a c p) s) ts t"
  by (induction ts arbitrary: t) (simp_all add: usdt_enter_effect)

lemma gc_start_run:
  "usdt_run t (map (GcStart c p) ts) =
     fold (\<lambda>s t. entered usdt_map_size t (gc_key c p) s) ts t"
  by (induction ts arbitrary: t) (simp_all add: usdt_gc_start_effect)

text \<open>
  C7, as the claim states it, fails once the 32-bit counter wraps: after \<open>2 ^ 32\<close> entry
  events of one key on the empty table the counter is 0.
\<close>

theorem entries_counted_counterexample:
  "lookup_result (ebpf_run [] (map (SysEnter 3 ''bash'' 77) (replicate (2 ^ 32) 100)))
     (sys_key 3 ''bash'' 77) = Some \<lparr>counter = 0, startTime = 100, cumLat = 0\<rparr>"
proof -
  have r: "replicate (2 ^ 32) (100 :: u64) = 100 # replicate (2 ^ 32 - 1) 100"
    by (simp add: replicate_Suc [symmetric] del: replicate_Suc)
  have e: "map_of (entered ebpf_map_size [] (sys_key 3 ''bash'' 77) 100) (sys_key 3 ''bash'' 77)
      = Some \<lparr>counter = 1, startTime = 100, cumLat = 0\<rparr>"
    by (simp add: map_of_entered ebpf_map_size_def)
  have w: "(1 :: u32) + of_nat (2 ^ 32 - 1) = 0"
    by simp
  show ?thesis
    unfolding sys_enter_run lookup_result_def map_lookup_def r
    using entered_fold_present [OF e, of ebpf_map_size "replicate (2 ^ 32 - 1) 100"] w
    by simp
qed

text \<open>
  C7, amended. After \<open>N\<close> entry events of one key, starting with the key absent and
  the table not full, the counter of the key is \<open>N mod 2 ^ 32\<close>: it is \<open>N\<close> for every
  \<open>N < 2 ^ 32\<close>. The list \<open>ts\<close> holds the timestamps of the \<open>N\<close> events.
\<close>

theorem entries_counted_modulo:
  "(map_lookup te (sys_key i c p) = None \<and> length te < ebpf_map_size \<longrightarrow>
      (\<exists>te'. ebpf_run te (map (SysEnter i c p) ts) = Inr te' \<and>
         unat (calls te' (sys_key i c p)) = length ts mod 2 ^ 32)) \<and>
   (fn_key f c p = Inr k \<and> map_lookup te k = None \<and> length te < ebpf_map_size \<longrightarrow>
      (\<exists>te'. ebpf_run te (map (DoEnter f c p) ts) = Inr te' \<and>
         unat (calls te' k) = length ts mod 2 ^ 32)) \<and>
   (map_lookup tu (usdt_key a c p) = None \<and> length tu < usdt_map_size \<longrightarrow>
      unat (calls (usdt_run tu (map (UsdtEnter a c p) ts)) (usdt_key a c p)) =
        length ts mod 2 ^ 32) \<and>
   (map_lookup tu (gc_key c p) = None \<and> length tu < usdt_map_size \<longrightarrow>
      unat (calls (usdt_run tu (map (GcStart c p) ts)) (gc_key c p)) = length ts mod 2 ^ 32)"
  by (simp add: sys_enter_run do_enter_run usdt_enter_run gc_start_run entered_fold_absent
      map_lookup_def unat_of_nat)

text \<open>Three entry events on the empty table, for each entry probe.\<close>

theorem entries_counted_modulo_witness:
  "ebpf_run [] (map (SysEnter 3 ''bash'' 77) [100, 105, 110]) =
     Inr [(sys_key 3 ''bash'' 77, \<lparr>counter = 3, startTime = 110, cumLat = 0\<rparr>)] \<and>
   ebpf_run [] (map (DoEnter ''f'' ''new'' 1) [100, 105, 110]) =
     Inr [(\<lparr>fname = buf_of 64 ''f'', comm = bpf_get_current_comm 64 ''new'', pid = 1,
             sysid = 0\<rparr>, \<lparr>counter = 3, startTime = 110, cumLat = 0\<rparr>)] \<and>
   unat (calls (usdt_run [] (map (UsdtEnter (Bytes ''f'') ''bash'' 77) [100, 105, 110]))
     (usdt_key (Bytes ''f'') ''bash'' 77)) = 3 \<and>
   unat (calls (usdt_run [] (map (GcStart ''bash'' 77) [100, 105, 110])) (gc_key ''bash'' 77)) = 3"
proof -
  let ?kf = "\<lparr>fname = buf_of 64 ''f'', comm = bpf_get_current_comm 64 ''new'', pid = 1,
             sysid = 0\<rparr>"
  have room: "length ([] :: key_t table) < ebpf_map_size"
    "length ([] :: usdt_key_t table) < usdt_map_size"
    by (simp_all add: ebpf_map_size_def usdt_map_size_def)
  have absent: "map_lookup ([] :: key_t table) k1 = None"
    "map_lookup ([] :: usdt_key_t table) k2 = None" for k1 k2
    by (simp_all add: map_lookup_def)
  note inst = entries_counted_modulo [of "[]" 3 "''bash''" 77 "[100, 105, 110]" _ _ "[]"
      "Bytes ''f''"]
  from inst room absent
  have c34: "unat (calls (usdt_run [] (map (UsdtEnter (Bytes ''f'') ''bash'' 77) [100, 105, 110]))
     (usdt_key (Bytes ''f'') ''bash'' 77)) = length [100 :: u64, 105, 110] mod 2 ^ 32 \<and>
     unat (calls (usdt_run [] (map (GcStart ''bash'' 77) [100, 105, 110])) (gc_key ''bash'' 77)) =
       length [100 :: u64, 105, 110] mod 2 ^ 32"
    by blast
  have r1: "ebpf_run [] (map (SysEnter 3 ''bash'' 77) [100, 105, 110]) =
     Inr [(sys_key 3 ''bash'' 77, \<lparr>counter = 3, startTime = 110, cumLat = 0\<rparr>)]"
    by (simp add: eval_simps)
  have r2: "ebpf_run [] (map (DoEnter ''f'' ''new'' 1) [100, 105, 110]) =
     Inr [(?kf, \<lparr>counter = 3, startTime = 110, cumLat = 0\<rparr>)]"
    by (simp add: eval_simps)
  from r1 r2 c34 show ?thesis by simp
qed

section \<open>Two entries before one exit\<close>

text \<open>
  C8. Entry at 100, entry at 105 and exit at 150 on one key, from the empty table: the
  second entry overwrites the start time, the exit is paired with it alone, and the key
  ends with \<open>counter = 2\<close> and \<open>cumLat = 45\<close>. This is so for the named-function probes,
  the syscall probes and both pairs of marker probes.
\<close>

theorem interleaved_entries_scenario:
  "ebpf_run [] [DoEnter ''A'' ''bash'' 77 100, DoEnter ''A'' ''bash'' 77 105,
       DoReturn ''A'' ''bash'' 77 150] =
     Inr [(\<lparr>fname = buf_of 64 ''A'', comm = buf_of 64 ''bash'', pid = 77, sysid = 0\<rparr>,
           \<lparr>counter = 2, startTime = 105, cumLat = 45\<rparr>)] \<and>
   ebpf_run [] [SysEnter 3 ''bash'' 77 100, SysEnter 3 ''bash'' 77 105,
       SysExit 3 ''bash'' 77 150] =
     Inr [(\<lparr>fname = zero_buf 64, comm = buf_of 64 ''bash'', pid = 77, sysid = 3\<rparr>,
           \<lparr>counter = 2, startTime = 105, cumLat = 45\<rparr>)] \<and>
   usdt_run [] [UsdtEnter (Bytes ''A'') ''bash'' 77 100, UsdtEnter (Bytes ''A'') ''bash'' 77 105,
       UsdtReturn (Bytes ''A'') ''bash'' 77 150] =
     [(\<lparr>usdt_fname = buf_of 64 ''A'', usdt_comm = buf_of 64 ''bash'', usdt_pid = 77\<rparr>,
       \<lparr>counter = 2, startTime = 105, cumLat = 45\<rparr>)] \<and>
   usdt_run [] [GcStart ''bash'' 77 100, GcStart ''bash'' 77 105, GcDone ''bash'' 77 150] =
     [(\<lparr>usdt_fname = buf_of 64 ''garbage_collector'', usdt_comm = buf_of 64 ''bash'',
        usdt_pid = 77\<rparr>,
       \<lparr>counter = 2, startTime = 105, cumLat = 45\<rparr>)]"
  by (simp add: eval_simps)

section \<open>Counters and latencies along a run\<close>

lemma counter_fits_le: "counter_fits v \<Longrightarrow> counter v \<le> counter v + 1"
  by (simp add: counter_fits_def no_olen_add_nat)

lemma sum_fits_le: "sum_fits v e \<Longrightarrow> cumLat v \<le> cumLat (accumulate v e)"
  by (simp add: sum_fits_def accumulate_def no_olen_add_nat)

lemma entered_mono:
  assumes "map_of t k = Some v"
    and "\<And>w. map_of t k' = Some w \<Longrightarrow> counter_fits w"
  shows "\<exists>v'. map_of (entered cap t k' s) k = Some v' \<and> counter v \<le> counter v' \<and>
    cumLat v \<le> cumLat v'"
  using assms by (auto simp: map_of_entered counter_fits_le)

lemma left_plain_mono:
  assumes "map_of t k = Some v"
    and "\<And>w. map_of t k' = Some w \<Longrightarrow> sum_fits w e"
  shows "\<exists>v'. map_of (left_plain t k' e) k = Some v' \<and> counter v \<le> counter v' \<and>
    cumLat v \<le> cumLat v'"
  using assms sum_fits_le [of v e] by (auto simp: map_of_left_plain accumulate_def)

lemma left_guarded_mono:
  assumes "map_of t k = Some v"
    and "\<And>w. map_of t k' = Some w \<Longrightarrow> startTime w \<noteq> 0 \<Longrightarrow> sum_fits w e"
  shows "\<exists>v'. map_of (left_guarded t k' e) k = Some v' \<and> counter v \<le> counter v' \<and>
    cumLat v \<le> cumLat v'"
  using assms sum_fits_le [of v e] by (auto simp: map_of_left_guarded accumulate_def)

lemma left_init_mono:
  assumes "map_of t k = Some v"
    and "\<And>w. map_of t k' = Some w \<Longrightarrow> sum_fits w e"
  shows "\<exists>v'. map_of (left_init cap t k' e) k = Some v' \<and> counter v \<le> counter v' \<and>
    cumLat v \<le> cumLat v'"
  using assms sum_fits_le [of v e] by (auto simp: map_of_left_init accumulate_def)

lemma ebpf_step_mono:
  assumes "ebpf_fits t e" "ebpf_step t e = Inr t'" "map_of t k = Some v"
  shows "\<exists>v'. map_of t' k = Some v' \<and> counter v \<le> counter v' \<and> cumLat v \<le> cumLat v'"
proof (cases e)
  case (DoEnter f c p s)
  with assms(2) obtain k' where k': "fn_key f c p = Inr k'" and t': "t' = entered ebpf_map_size t k' s"
    by (auto simp: do_enter_effect split: sum.splits)
  from assms(1) DoEnter k' have "\<And>w. map_of t k' = Some w \<Longrightarrow> counter_fits w" by simp
  from entered_mono [OF assms(3) this] t' show ?thesis by simp
next
  case (DoReturn f c p x)
  with assms(2) obtain k' where k': "fn_key f c p = Inr k'" and t': "t' = left_guarded t k' x"
    by (auto simp: do_return_effect split: sum.splits)
  from assms(1) DoReturn k' have "\<And>w. map_of t k' = Some w \<Longrightarrow> startTime w \<noteq> 0 \<Longrightarrow> sum_fits w x"
    by simp
  from left_guarded_mono [OF assms(3) this] t' show ?thesis by simp
next
  case (SysEnter i c p s)
  with assms(2) have t': "t' = entered ebpf_map_size t (sys_key i c p) s"
    by (simp add: sys_enter_effect)
  from assms(1) SysEnter have "\<And>w. map_of t (sys_key i c p) = Some w \<Longrightarrow> counter_fits w" by simp
  from entered_mono [OF assms(3) this] t' show ?thesis by simp
next
  case (SysExit i c p x)
  with assms(2) have t': "t' = left_plain t (sys_key i c p) x"
    by (simp add: sys_exit_effect)
  from assms(1) SysExit have "\<And>w. map_of t (sys_key i c p) = Some w \<Longrightarrow> sum_fits w x" by simp
  from left_plain_mono [OF assms(3) this] t' show ?thesis by simp
qed

lemma usdt_step_mono:
  assumes "usdt_fits t e" "map_of t k = Some v"
  shows "\<exists>v'. map_of (usdt_step t e) k = Some v' \<and> counter v \<le> counter v' \<and>
    cumLat v \<le> cumLat v'"
proof (cases e)
  case (GcStart c p s)
  from assms(1) GcStart have "\<And>w. map_of t (gc_key c p) = Some w \<Longrightarrow> counter_fits w" by simp
  from entered_mono [OF assms(2) this] GcStart show ?thesis by (simp add: usdt_gc_start_effect)
next
  case (GcDone c p x)
  from assms(1) GcDone have "\<And>w. map_of t (gc_key c p) = Some w \<Longrightarrow> sum_fits w x" by simp
  from left_init_mono [OF assms(2) this] GcDone show ?thesis by (simp add: usdt_gc_done_effect)
next
  case (UsdtEnter a c p s)
  from assms(1) UsdtEnter have "\<And>w. map_of t (usdt_key a c p) = Some w \<Longrightarrow> counter_fits w" by simp
  from entered_mono [OF assms(2) this] UsdtEnter show ?thesis by (simp add: usdt_enter_effect)
next
  case (UsdtReturn a c p x)
  from assms(1) UsdtReturn have "\<And>w. map_of t (usdt_key a c p) = Some w \<Longrightarrow> sum_fits w x" by simp
  from left_init_mono [OF assms(2) this] UsdtReturn show ?thesis by (simp add: usdt_return_effect)
qed

lemma ebpf_run_mono:
  "ebpf_run_fits t es \<Longrightarrow> ebpf_run t es = Inr t' \<Longrightarrow> map_of t k = Some v \<Longrightarrow>
   \<exists>v'. map_of t' k = Some v' \<and> counter v \<le> counter v' \<and> cumLat v \<le> cumLat v'"
proof (induction es arbitrary: t v)
  case Nil
  then show ?case by simp
next
  case (Cons e es)
  from Cons.prems(2) obtain t1 where s: "ebpf_step t e = Inr t1" and r: "ebpf_run t1 es = Inr t'"
    by (auto split: sum.splits)
  from Cons.prems(1) s have f: "ebpf_fits t e" and fr: "ebpf_run_fits t1 es" by simp_all
  from ebpf_step_mono [OF f s Cons.prems(3)] obtain v1 where
    v1: "map_of t1 k = Some v1" "counter v \<le> counter v1" "cumLat v \<le> cumLat v1" by blast
  from Cons.IH [OF fr r v1(1)] obtain v' where
    "map_of t' k = Some v'" "counter v1 \<le> counter v'" "cumLat v1 \<le> cumLat v'" by blast
  with v1 show ?case by auto
qed

lemma usdt_run_mono:
  "usdt_run_fits t es \<Longrightarrow> map_of t k = Some v \<Longrightarrow>
   \<exists>v'. map_of (usdt_run t es) k = Some v' \<and> counter v \<le> counter v' \<and> cumLat v \<le> cumLat v'"
proof (induction es arbitrary: t v)
  case Nil
  then show ?case by simp
next
  case (Cons e es)
  from Cons.prems(1) have f: "usdt_fits t e" and fr: "usdt_run_fits (usdt_step t e) es" by simp_all
  from usdt_step_mono [OF f Cons.prems(2)] obtain v1 where
    v1: "map_of (usdt_step t e) k = Some v1" "counter v \<le> counter v1" "cumLat v \<le> cumLat v1"
    by blast
  from Cons.IH [OF fr v1(1)] obtain v' where
    "map_of (usdt_run (usdt_step t e) es) k = Some v'" "counter v1 \<le> counter v'"
    "cumLat v1 \<le> cumLat v'" by blast
  with v1 show ?case by auto
qed

text \<open>
  C9, as the claim states it, fails when a field wraps around. With timestamps that never
  go back: an entry at 1 and an exit at \<open>2 ^ 63 + 1\<close> leave \<open>cumLat = 2 ^ 63\<close>; a second
  exit at the same time (the start time is still 1) adds \<open>2 ^ 63\<close> again and leaves
  \<open>cumLat = 0\<close>. And an entry event on a counter of \<open>2 ^ 32 - 1\<close> leaves the counter 0.
\<close>

theorem no_decrease_counterexample:
  "ebpf_run [] [SysEnter 3 ''bash'' 77 1, SysExit 3 ''bash'' 77 (2 ^ 63 + 1)] =
     Inr [(sys_key 3 ''bash'' 77, \<lparr>counter = 1, startTime = 1, cumLat = 2 ^ 63\<rparr>)] \<and>
   ebpf_run [] [SysEnter 3 ''bash'' 77 1, SysExit 3 ''bash'' 77 (2 ^ 63 + 1),
       SysExit 3 ''bash'' 77 (2 ^ 63 + 1)] =
     Inr [(sys_key 3 ''bash'' 77, \<lparr>counter = 1, startTime = 1, cumLat = 0\<rparr>)] \<and>
   (0 :: u64) < 2 ^ 63 \<and>
   sys_enter [(sys_key 3 ''bash'' 77, \<lparr>counter = 2 ^ 32 - 1, startTime = 1, cumLat = 0\<rparr>)]
       3 ''bash'' 77 2 =
     [(sys_key 3 ''bash'' 77, \<lparr>counter = 0, startTime = 2, cumLat = 0\<rparr>)]"
  by (simp add: eval_simps)

text \<open>
  C9, amended. Along every run in which no counter increment overflows 32 bits and no
  latency addition overflows 64 bits (\<open>ebpf_run_fits\<close>, \<open>usdt_run_fits\<close>), a key that
  is in the table at some point of the run is in the table at every later point, and
  neither its counter nor its accumulated latency is smaller there.
\<close>

theorem no_decrease_without_wrap:
  "(ebpf_run_fits te (es1 @ es2) \<and> ebpf_run te es1 = Inr te1 \<and> ebpf_run te1 es2 = Inr te2 \<and>
    map_lookup te1 k = Some v \<longrightarrow>
      (\<exists>v'. map_lookup te2 k = Some v' \<and> counter v \<le> counter v' \<and> cumLat v \<le> cumLat v')) \<and>
   (usdt_run_fits tu (us1 @ us2) \<and> map_lookup (usdt_run tu us1) ku = Some w \<longrightarrow>
      (\<exists>w'. map_lookup (usdt_run tu (us1 @ us2)) ku = Some w' \<and> counter w \<le> counter w' \<and>
         cumLat w \<le> cumLat w'))"
proof (intro conjI impI)
  assume a: "ebpf_run_fits te (es1 @ es2) \<and> ebpf_run te es1 = Inr te1 \<and>
    ebpf_run te1 es2 = Inr te2 \<and> map_lookup te1 k = Some v"
  then have "ebpf_run_fits te1 es2" using ebpf_run_fits_append by blast
  with a show "\<exists>v'. map_lookup te2 k = Some v' \<and> counter v \<le> counter v' \<and> cumLat v \<le> cumLat v'"
    using ebpf_run_mono [of te1 es2 te2 k v] by (simp add: map_lookup_def)
next
  assume a: "usdt_run_fits tu (us1 @ us2) \<and> map_lookup (usdt_run tu us1) ku = Some w"
  then have "usdt_run_fits (usdt_run tu us1) us2" using usdt_run_fits_append by blast
  with a show "\<exists>w'. map_lookup (usdt_run tu (us1 @ us2)) ku = Some w' \<and> counter w \<le> counter w' \<and>
         cumLat w \<le> cumLat w'"
    using usdt_run_mono [of "usdt_run tu us1" us2 ku w] by (simp add: map_lookup_def usdt_run_append)
qed

text \<open>Entry at 100, then exit at 150, entry at 200 and exit at 260.\<close>

theorem no_decrease_without_wrap_witness:
  "map_lookup [(sys_key 3 ''bash'' 77, \<lparr>counter = 2, startTime = 200, cumLat = 110\<rparr>)]
     (sys_key 3 ''bash'' 77) = Some \<lparr>counter = 2, startTime = 200, cumLat = 110\<rparr> \<and>
   (\<exists>v'. map_lookup [(sys_key 3 ''bash'' 77, \<lparr>counter = 2, startTime = 200, cumLat = 110\<rparr>)]
           (sys_key 3 ''bash'' 77) = Some v' \<and>
         counter \<lparr>counter = 1, startTime = 100, cumLat = 0\<rparr> \<le> counter v' \<and>
         cumLat \<lparr>counter = 1, startTime = 100, cumLat = 0\<rparr> \<le> cumLat v') \<and>
   (\<exists>w'. map_lookup
           (usdt_run [] ([GcStart ''bash'' 77 100] @
              [GcDone ''bash'' 77 150, GcStart ''bash'' 77 200, GcDone ''bash'' 77 260]))
           (gc_key ''bash'' 77) = Some w' \<and>
         counter \<lparr>counter = 1, startTime = 100, cumLat = 0\<rparr> \<le> counter w' \<and>
         cumLat \<lparr>counter = 1, startTime = 100, cumLat = 0\<rparr> \<le> cumLat w')"
proof -
  let ?k = "sys_key 3 ''bash'' 77"
  let ?es1 = "[SysEnter 3 ''bash'' 77 100]"
  let ?es2 = "[SysExit 3 ''bash'' 77 150, SysEnter 3 ''bash'' 77 200, SysExit 3 ''bash'' 77 260]"
  let ?us1 = "[GcStart ''bash'' 77 100]"
  let ?us2 = "[GcDone ''bash'' 77 150, GcStart ''bash'' 77 200, GcDone ''bash'' 77 260]"
  let ?v1 = "\<lparr>counter = 1, startTime = 100, cumLat = 0\<rparr>"
  let ?v2 = "\<lparr>counter = 2, startTime = 200, cumLat = 110\<rparr>"
  have f: "ebpf_run_fits [] (?es1 @ ?es2)"
    by (simp add: eval_simps fits_defs)
  have r1: "ebpf_run [] ?es1 = Inr [(?k, ?v1)]"
    by (simp add: eval_simps)
  have r2: "ebpf_run [(?k, ?v1)] ?es2 = Inr [(?k, ?v2)]"
    by (simp add: eval_simps)
  have l: "map_lookup [(?k, ?v1)] ?k = Some ?v1"
    by (simp add: map_lookup_def)
  have fu: "usdt_run_fits [] (?us1 @ ?us2)"
    by (simp add: eval_simps fits_defs)
  have lu: "map_lookup (usdt_run [] ?us1) (gc_key ''bash'' 77) = Some ?v1"
    by (simp add: eval_simps)
  note inst = no_decrease_without_wrap [of "[]" ?es1 ?es2 "[(?k, ?v1)]" "[(?k, ?v2)]" ?k ?v1
      "[]" ?us1 ?us2 "gc_key ''bash'' 77" ?v1]
  from inst f r1 r2 l fu lu show ?thesis by (simp add: map_lookup_def)
qed

section \<open>What an exit leaves untouched\<close>

text \<open>
  C10. An exit event that accumulates changes \<open>cumLat\<close> alone: the counter and the
  start time of the key stay as they were, and the start time is not reset to 0. A
  second exit of the same key, with no entry in between, therefore accumulates a second
  delta measured from the same start time.
\<close>

theorem exit_keeps_counter_and_start:
  "(map_lookup te (sys_key i c p) = Some v \<longrightarrow>
      map_lookup (sys_exit te i c p e1) (sys_key i c p) =
        Some (v\<lparr>cumLat := cumLat v + (e1 - startTime v)\<rparr>) \<and>
      map_lookup (sys_exit (sys_exit te i c p e1) i c p e2) (sys_key i c p) =
        Some (v\<lparr>cumLat := cumLat v + (e1 - startTime v) + (e2 - startTime v)\<rparr>)) \<and>
   (fn_key f c p = Inr k \<and> map_lookup te k = Some v \<and> startTime v \<noteq> 0 \<longrightarrow>
      lookup_result (do_return te f c p e1) k =
        Some (v\<lparr>cumLat := cumLat v + (e1 - startTime v)\<rparr>) \<and>
      lookup_result (ebpf_run te [DoReturn f c p e1, DoReturn f c p e2]) k =
        Some (v\<lparr>cumLat := cumLat v + (e1 - startTime v) + (e2 - startTime v)\<rparr>)) \<and>
   (map_lookup tu (usdt_key a c p) = Some v \<longrightarrow>
      map_lookup (usdt_return tu a c p e1) (usdt_key a c p) =
        Some (v\<lparr>cumLat := cumLat v + (e1 - startTime v)\<rparr>) \<and>
      map_lookup (usdt_return (usdt_return tu a c p e1) a c p e2) (usdt_key a c p) =
        Some (v\<lparr>cumLat := cumLat v + (e1 - startTime v) + (e2 - startTime v)\<rparr>)) \<and>
   (map_lookup tu (gc_key c p) = Some v \<longrightarrow>
      map_lookup (usdt_gc_done tu c p e1) (gc_key c p) =
        Some (v\<lparr>cumLat := cumLat v + (e1 - startTime v)\<rparr>) \<and>
      map_lookup (usdt_gc_done (usdt_gc_done tu c p e1) c p e2) (gc_key c p) =
        Some (v\<lparr>cumLat := cumLat v + (e1 - startTime v) + (e2 - startTime v)\<rparr>))"
  by (simp add: usdt_return_effect usdt_gc_done_effect sys_exit_effect do_return_effect
      map_lookup_def lookup_result_def map_of_left_init map_of_left_plain map_of_left_guarded
      accumulate_def)

text \<open>A key entered at 100, with exits at 150 and at 170: 50, then 50 + 70.\<close>

theorem exit_keeps_counter_and_start_witness:
  "map_lookup
     (sys_exit (sys_exit [(sys_key 3 ''bash'' 77, \<lparr>counter = 1, startTime = 100, cumLat = 0\<rparr>)]
        3 ''bash'' 77 150) 3 ''bash'' 77 170) (sys_key 3 ''bash'' 77) =
     Some \<lparr>counter = 1, startTime = 100, cumLat = 120\<rparr> \<and>
   lookup_result
     (ebpf_run [(\<lparr>fname = buf_of 64 ''f'', comm = bpf_get_current_comm 64 ''new'', pid = 1,
                  sysid = 0\<rparr>, \<lparr>counter = 1, startTime = 100, cumLat = 0\<rparr>)]
        [DoReturn ''f'' ''new'' 1 150, DoReturn ''f'' ''new'' 1 170])
     \<lparr>fname = buf_of 64 ''f'', comm = bpf_get_current_comm 64 ''new'', pid = 1, sysid = 0\<rparr> =
     Some \<lparr>counter = 1, startTime = 100, cumLat = 120\<rparr> \<and>
   map_lookup
     (usdt_return (usdt_return
        [(usdt_key (Bytes ''f'') ''bash'' 77, \<lparr>counter = 1, startTime = 100, cumLat = 0\<rparr>)]
        (Bytes ''f'') ''bash'' 77 150) (Bytes ''f'') ''bash'' 77 170)
     (usdt_key (Bytes ''f'') ''bash'' 77) =
     Some \<lparr>counter = 1, startTime = 100, cumLat = 120\<rparr> \<and>
   map_lookup
     (usdt_gc_done (usdt_gc_done
        [(gc_key ''bash'' 77, \<lparr>counter = 1, startTime = 100, cumLat = 0\<rparr>)] ''bash'' 77 150)
        ''bash'' 77 170)
     (gc_key ''bash'' 77) = Some \<lparr>counter = 1, startTime = 100, cumLat = 120\<rparr>"
proof -
  let ?v = "\<lparr>counter = 1, startTime = 100, cumLat = 0\<rparr>"
  let ?kf = "\<lparr>fname = buf_of 64 ''f'', comm = bpf_get_current_comm 64 ''new'', pid = 1,
             sysid = 0\<rparr>"
  have h1: "map_lookup [(sys_key 3 ''bash'' 77, ?v)] (sys_key 3 ''bash'' 77) = Some ?v"
    by (simp add: map_lookup_def)
  have h2: "fn_key ''f'' ''new'' 1 = Inr ?kf \<and> map_lookup [(?kf, ?v)] ?kf = Some ?v \<and>
      startTime ?v \<noteq> 0"
    by (simp add: map_lookup_def fn_key_f_new)
  have h3: "map_lookup [(usdt_key (Bytes ''f'') ''bash'' 77, ?v)] (usdt_key (Bytes ''f'') ''bash'' 77)
      = Some ?v"
    by (simp add: map_lookup_def)
  have h4: "map_lookup [(gc_key ''bash'' 77, ?v)] (gc_key ''bash'' 77) = Some ?v"
    by (simp add: map_lookup_def)
  from exit_keeps_counter_and_start [of "[(sys_key 3 ''bash'' 77, ?v)]" 3 "''bash''" 77 ?v 150 170
      _ _ "[(usdt_key (Bytes ''f'') ''bash'' 77, ?v)]" "Bytes ''f''"] h1 h3
  have a: "map_lookup
     (sys_exit (sys_exit [(sys_key 3 ''bash'' 77, ?v)] 3 ''bash'' 77 150) 3 ''bash'' 77 170)
     (sys_key 3 ''bash'' 77) = Some \<lparr>counter = 1, startTime = 100, cumLat = 120\<rparr> \<and>
     map_lookup
     (usdt_return (usdt_return [(usdt_key (Bytes ''f'') ''bash'' 77, ?v)]
        (Bytes ''f'') ''bash'' 77 150) (Bytes ''f'') ''bash'' 77 170)
     (usdt_key (Bytes ''f'') ''bash'' 77) = Some \<lparr>counter = 1, startTime = 100, cumLat = 120\<rparr>"
    by simp
  from exit_keeps_counter_and_start [of "[(?kf, ?v)]" 3 "''new''" 1 ?v 150 170
      "''f''" ?kf "[(gc_key ''new'' 1, ?v)]" "Bytes ''f''"] h2
  have b: "lookup_result (ebpf_run [(?kf, ?v)]
        [DoReturn ''f'' ''new'' 1 150, DoReturn ''f'' ''new'' 1 170]) ?kf =
     Some \<lparr>counter = 1, startTime = 100, cumLat = 120\<rparr>"
    by simp
  from exit_keeps_counter_and_start [of "[(?kf, ?v)]" 3 "''bash''" 77 ?v 150 170
      "''f''" ?kf "[(gc_key ''bash'' 77, ?v)]" "Bytes ''f''"] h4
  have c: "map_lookup
     (usdt_gc_done (usdt_gc_done [(gc_key ''bash'' 77, ?v)] ''bash'' 77 150) ''bash'' 77 170)
     (gc_key ''bash'' 77) = Some \<lparr>counter = 1, startTime = 100, cumLat = 120\<rparr>"
    by simp
  from a b c show ?thesis by simp
qed

end
